theory Spec2Isabelle
  imports Main "HOL-Library.Word"
begin

section \<open>The entitlement commitment manager (class MerkleManager)\<close>

text \<open>
  The class \<^verbatim>\<open>MerkleManager\<close> keeps a JavaScript \<^verbatim>\<open>Map\<close> from lowercased
  addresses to amounts, a cached \<^verbatim>\<open>MerkleTree\<close> and a cached root. Its methods are
  embedded below as functions on an explicit state; a method that throws returns
  \<open>Inl\<close> of the error together with the state the exception leaves behind, since
  several methods write to the map before a later statement can throw.

  Addresses and amounts are JavaScript strings (the documented parameter types).
  Hashes, roots and proof elements are byte buffers; where the source holds the hex
  spelling \<^verbatim>\<open>'0x...'\<close> of a buffer, the model holds the bytes it spells.
\<close>

subsection \<open>JavaScript built-ins\<close>

type_synonym byte = "8 word"
type_synonym buffer = "byte list"

text \<open>\<^verbatim>\<open>String.prototype.toLowerCase\<close> on the ASCII range: A-Z become a-z.\<close>

definition lower_char :: "char \<Rightarrow> char" where
  "lower_char c =
     (let n = (of_char c :: nat) in if 65 \<le> n \<and> n \<le> 90 then char_of (n + 32) else c)"

definition toLowerCase :: "string \<Rightarrow> string" where
  "toLowerCase s = map lower_char s"

text \<open>\<^verbatim>\<open>Buffer.compare\<close>: bytewise, unsigned, a proper prefix is smaller.\<close>

fun Buffer_compare :: "buffer \<Rightarrow> buffer \<Rightarrow> int" where
  "Buffer_compare [] [] = 0"
| "Buffer_compare [] (y # ys) = - 1"
| "Buffer_compare (x # xs) [] = 1"
| "Buffer_compare (x # xs) (y # ys) =
     (if x < y then - 1 else if y < x then 1 else Buffer_compare xs ys)"

text \<open>
  A \<^verbatim>\<open>Map\<close> iterates in insertion order and \<^verbatim>\<open>set\<close> on a present key keeps the
  key's position, so the map is an association list with distinct keys.
\<close>

fun Map_set :: "'k \<Rightarrow> 'v \<Rightarrow> ('k \<times> 'v) list \<Rightarrow> ('k \<times> 'v) list" where
  "Map_set k v [] = [(k, v)]"
| "Map_set k v ((k', v') # m) =
     (if k' = k then (k, v) # m else (k', v') # Map_set k v m)"

definition Map_has :: "'k \<Rightarrow> ('k \<times> 'v) list \<Rightarrow> bool" where
  "Map_has k m = (map_of m k \<noteq> None)"

definition Map_get :: "'k \<Rightarrow> ('k \<times> 'v) list \<Rightarrow> 'v option" where
  "Map_get k m = map_of m k"

text \<open>\<^verbatim>\<open>Map.prototype.delete\<close> returns whether the key was present.\<close>

definition Map_delete :: "'k \<Rightarrow> ('k \<times> 'v) list \<Rightarrow> bool \<times> ('k \<times> 'v) list" where
  "Map_delete k m = (Map_has k m, filter (\<lambda>e. fst e \<noteq> k) m)"

text \<open>A string is falsy exactly when it is empty (\<^verbatim>\<open>!amount\<close>).\<close>

definition falsy :: "string \<Rightarrow> bool" where
  "falsy s = (s = [])"

text \<open>
  \<^verbatim>\<open>Object.fromEntries\<close> followed by \<^verbatim>\<open>Object.entries\<close>: an object lists its
  array-index keys (canonical decimal numerals below \<open>2^32 - 1\<close>) first, in ascending
  numeric order, and every other string key after them in insertion order.
\<close>

definition is_digit :: "char \<Rightarrow> bool" where
  "is_digit c = (let n = (of_char c :: nat) in 48 \<le> n \<and> n \<le> 57)"

definition digit_val :: "char \<Rightarrow> nat" where
  "digit_val c = of_char c - 48"

fun decimal_value :: "nat \<Rightarrow> string \<Rightarrow> nat" where
  "decimal_value acc [] = acc"
| "decimal_value acc (c # cs) = decimal_value (acc * 10 + digit_val c) cs"

definition parse_decimal :: "string \<Rightarrow> nat option" where
  "parse_decimal s =
     (if s \<noteq> [] \<and> list_all is_digit s then Some (decimal_value 0 s) else None)"

definition is_array_index :: "string \<Rightarrow> bool" where
  "is_array_index s =
     (case parse_decimal s of
        None \<Rightarrow> False
      | Some n \<Rightarrow> (s = ''0'' \<or> hd s \<noteq> CHR ''0'') \<and> n < 4294967295)"

definition object_entries :: "(string \<times> 'v) list \<Rightarrow> (string \<times> 'v) list" where
  "object_entries es =
     sort_key (\<lambda>e. decimal_value 0 (fst e)) (filter (\<lambda>e. is_array_index (fst e)) es)
     @ filter (\<lambda>e. \<not> is_array_index (fst e)) es"

subsection \<open>The imported packages\<close>

text \<open>
  \<^verbatim>\<open>ethers\<close> and \<^verbatim>\<open>keccak256\<close> are third-party packages; the manager's behaviour is
  stated for every implementation of the four functions it calls. \<open>None\<close> stands for
  a call that throws. \<open>formatEther\<close> is only used inside a log message, so only
  whether it throws is kept. \<open>solidityPack a v\<close> stands for
  \<^verbatim>\<open>ethers.utils.solidityPack(['address', 'uint256'], [a, v])\<close>.
\<close>

record lib =
  isAddress :: "string \<Rightarrow> bool"
  formatEther :: "string \<Rightarrow> unit option"
  solidityPack :: "string \<Rightarrow> string \<Rightarrow> buffer option"
  keccak256 :: "buffer \<Rightarrow> buffer"

subsection \<open>The Merkle tree of the merkletreejs package\<close>

text \<open>
  Modelled from the spec: the class \<^verbatim>\<open>MerkleTree\<close> of the package merkletreejs
  (its constructor with the option \<^verbatim>\<open>sortPairs: true\<close>, \<^verbatim>\<open>getHexRoot\<close>,
  \<^verbatim>\<open>getHexProof\<close> and \<^verbatim>\<open>verify\<close>) is not part of the repository's sources. The spec
  describes it: the tree is built bottom-up over the leaves in the order they are
  given, by repeatedly hashing sorted pairs of nodes until one root remains; an odd
  node at the end of a level is promoted unchanged; the proof of a leaf is the
  sequence of sibling hashes from the leaf to the root; verification folds the proof
  into the leaf, sorting each pair before hashing, and compares with the root.
  The hash function is the one the manager passes to the constructor.
\<close>

text \<open>
  Modelled from the spec: an internal node is the hash of its two children, the smaller
  one first (\<^verbatim>\<open>sortPairs\<close>).
\<close>

definition hashPair :: "(buffer \<Rightarrow> buffer) \<Rightarrow> buffer \<Rightarrow> buffer \<Rightarrow> buffer" where
  "hashPair H l r = H (if Buffer_compare l r > 0 then r @ l else l @ r)"

text \<open>
  Modelled from the spec: a level is built from the one below by hashing its nodes in
  pairs, an odd last node being promoted unchanged; levels are added while the last
  one has more than one node.
\<close>

fun nextLayer :: "(buffer \<Rightarrow> buffer) \<Rightarrow> buffer list \<Rightarrow> buffer list" where
  "nextLayer H [] = []"
| "nextLayer H [x] = [x]"
| "nextLayer H (l # r # rest) = hashPair H l r # nextLayer H rest"

function createHashes :: "(buffer \<Rightarrow> buffer) \<Rightarrow> buffer list \<Rightarrow> buffer list list" where
  "createHashes H nodes =
     (if length nodes > 1 then nodes # createHashes H (nextLayer H nodes) else [nodes])"
  by pat_completeness auto
termination
proof (relation "measure (\<lambda>(H, nodes). length nodes)")
  show "wf (measure (\<lambda>(H :: buffer \<Rightarrow> buffer, nodes :: buffer list). length nodes))"
    by simp
next
  fix H :: "buffer \<Rightarrow> buffer" and nodes :: "buffer list"
  assume long: "1 < length nodes"
  have len: "length (nextLayer H xs) = (length xs + 1) div 2" for xs
    by (induction H xs rule: nextLayer.induct) auto
  from long show "((H, nextLayer H nodes), (H, nodes)) \<in> measure (\<lambda>(H, nodes). length nodes)"
    by (simp add: len)
qed

declare createHashes.simps [simp del]

text \<open>
  Modelled from the spec: the tree keeps its leaves and its levels, the leaves being
  the lowest level; the root is the first node of the highest level.
\<close>

record MerkleTree =
  leaves :: "buffer list"
  layers :: "buffer list list"

definition new_MerkleTree :: "(buffer \<Rightarrow> buffer) \<Rightarrow> buffer list \<Rightarrow> MerkleTree" where
  "new_MerkleTree H lvs = \<lparr>leaves = lvs, layers = createHashes H lvs\<rparr>"

definition getRoot :: "MerkleTree \<Rightarrow> buffer" where
  "getRoot t =
     (if layers t = [] then []
      else (case last (layers t) of [] \<Rightarrow> [] | x # _ \<Rightarrow> x))"

text \<open>
  Modelled from the spec: the proof of a leaf. The leaf is looked up among the leaves
  (the last position whose buffer equals it; no proof elements when there is none),
  and the walk from its level to the root collects the sibling of the current node
  wherever the node has one.
\<close>

fun indexLoop :: "buffer \<Rightarrow> buffer list \<Rightarrow> nat \<Rightarrow> nat option \<Rightarrow> nat option" where
  "indexLoop leaf [] i idx = idx"
| "indexLoop leaf (x # xs) i idx =
     indexLoop leaf xs (i + 1) (if Buffer_compare leaf x = 0 then Some i else idx)"

fun proofLoop :: "buffer list list \<Rightarrow> nat \<Rightarrow> buffer list" where
  "proofLoop [] index = []"
| "proofLoop (layer # rest) index =
     (let pairIndex = (if index mod 2 = 1 then index - 1 else index + 1)
      in (if pairIndex < length layer then [layer ! pairIndex] else [])
         @ proofLoop rest (index div 2))"

definition getProof :: "MerkleTree \<Rightarrow> buffer \<Rightarrow> buffer list" where
  "getProof t leaf =
     (case indexLoop leaf (leaves t) 0 None of
        None \<Rightarrow> []
      | Some index \<Rightarrow> proofLoop (layers t) index)"

text \<open>
  Modelled from the spec: verification hashes the running hash with each proof element
  in turn, the smaller buffer first, and compares the result with the root.
\<close>

fun verifyLoop :: "(buffer \<Rightarrow> buffer) \<Rightarrow> buffer list \<Rightarrow> buffer \<Rightarrow> buffer" where
  "verifyLoop H [] hash = hash"
| "verifyLoop H (data # rest) hash =
     verifyLoop H rest
       (if Buffer_compare hash data = - 1 then H (hash @ data) else H (data @ hash))"

definition verify :: "(buffer \<Rightarrow> buffer) \<Rightarrow> buffer list \<Rightarrow> buffer \<Rightarrow> buffer \<Rightarrow> bool" where
  "verify H prf targetNode root = (Buffer_compare (verifyLoop H prf targetNode) root = 0)"

subsection \<open>State, errors and results\<close>

record manager =
  whitelistedUsers :: "(string \<times> string) list"
  merkleTree :: "MerkleTree option"
  merkleRoot :: "buffer option"

datatype error =
    InvalidAddressFormat
  | InvalidAmount
  | UserNotWhitelisted
  | MerkleTreeNotGenerated
  | InvalidWhitelistData
  | LibraryError

text \<open>The constructor: an empty map, no tree, and \<^verbatim>\<open>null\<close> for the root.\<close>

definition new_MerkleManager :: manager where
  "new_MerkleManager = \<lparr>whitelistedUsers = [], merkleTree = None, merkleRoot = None\<rparr>"

text \<open>The root of the empty whitelist: \<^verbatim>\<open>'0x'\<close> followed by 64 zeros, 32 zero bytes.\<close>

definition zero_root :: buffer where
  "zero_root = replicate 32 0"

record add_result =
  add_user :: string
  add_amount :: string
  add_merkleRoot :: "buffer option"

text \<open>
  The object returned by \<^verbatim>\<open>removeFromWhitelist\<close> has a \<^verbatim>\<open>merkleRoot\<close> property
  only in the branch that removed a record: the outer \<open>option\<close> is the presence of
  the property, the inner one the \<^verbatim>\<open>null\<close> of the root.
\<close>

record remove_result =
  rem_user :: string
  rem_removed :: bool
  rem_merkleRoot :: "buffer option option"

record proof_result =
  prf_user :: string
  prf_amount :: string
  prf_proof :: "buffer list"
  prf_merkleRoot :: "buffer option"
  prf_leaf :: buffer
  prf_isValid :: bool

record batch_result =
  bat_added :: nat
  bat_total :: nat
  bat_merkleRoot :: "buffer option"

record stats =
  totalUsers :: nat
  stats_merkleRoot :: "buffer option"
  hasTree :: bool

text \<open>
  The argument of \<^verbatim>\<open>importWhitelist\<close> and the value of \<^verbatim>\<open>exportWhitelist\<close>: the
  property \<^verbatim>\<open>users\<close> is an object, held as the list \<^verbatim>\<open>Object.entries\<close> gives, or
  is missing (\<open>None\<close>).
\<close>

record whitelist_data =
  users :: "(string \<times> string) list option"
  data_merkleRoot :: "buffer option"
  timestamp :: string

subsection \<open>The methods\<close>

fun leavesOf :: "lib \<Rightarrow> (string \<times> string) list \<Rightarrow> buffer list option" where
  "leavesOf L [] = Some []"
| "leavesOf L ((address, amount) # es) =
     (case solidityPack L address amount of
        None \<Rightarrow> None
      | Some packed \<Rightarrow>
          (case leavesOf L es of
             None \<Rightarrow> None
           | Some lvs \<Rightarrow> Some (keccak256 L packed # lvs)))"

text \<open>
  The leaves are computed from the entries in the map's iteration order; the first
  entry that cannot be packed makes the rebuild throw before the tree or the root is
  assigned.
\<close>

definition generateMerkleTree :: "lib \<Rightarrow> manager \<Rightarrow> (error + unit) \<times> manager" where
  "generateMerkleTree L s =
     (if length (whitelistedUsers s) = 0
      then (Inr (), s\<lparr>merkleTree := None, merkleRoot := Some zero_root\<rparr>)
      else (case leavesOf L (whitelistedUsers s) of
              None \<Rightarrow> (Inl LibraryError, s)
            | Some lvs \<Rightarrow>
                (let t = new_MerkleTree (keccak256 L) lvs
                 in (Inr (), s\<lparr>merkleTree := Some t, merkleRoot := Some (getRoot t)\<rparr>))))"

text \<open>
  \<^verbatim>\<open>addToWhitelist\<close> writes to the map, then formats the amount for the log message,
  then rebuilds: an exception of the last two steps leaves the write in place.
\<close>

definition addToWhitelist ::
  "lib \<Rightarrow> string \<Rightarrow> string \<Rightarrow> manager \<Rightarrow> (error + add_result) \<times> manager" where
  "addToWhitelist L userAddress amount s =
     (if \<not> isAddress L userAddress then (Inl InvalidAddressFormat, s)
      else if falsy amount \<or> amount = ''0'' then (Inl InvalidAmount, s)
      else
        (let s1 = s\<lparr>whitelistedUsers :=
                      Map_set (toLowerCase userAddress) amount (whitelistedUsers s)\<rparr>
         in (case formatEther L amount of
               None \<Rightarrow> (Inl LibraryError, s1)
             | Some _ \<Rightarrow>
                 (case generateMerkleTree L s1 of
                    (Inl e, s2) \<Rightarrow> (Inl e, s2)
                  | (Inr _, s2) \<Rightarrow>
                      (Inr \<lparr>add_user = userAddress, add_amount = amount,
                            add_merkleRoot = merkleRoot s2\<rparr>, s2)))))"

definition removeFromWhitelist ::
  "lib \<Rightarrow> string \<Rightarrow> manager \<Rightarrow> (error + remove_result) \<times> manager" where
  "removeFromWhitelist L userAddress s =
     (if \<not> isAddress L userAddress then (Inl InvalidAddressFormat, s)
      else
        (case Map_delete (toLowerCase userAddress) (whitelistedUsers s) of
           (wasRemoved, m) \<Rightarrow>
             (let s1 = s\<lparr>whitelistedUsers := m\<rparr>
              in if wasRemoved
                 then (case generateMerkleTree L s1 of
                         (Inl e, s2) \<Rightarrow> (Inl e, s2)
                       | (Inr _, s2) \<Rightarrow>
                           (Inr \<lparr>rem_user = userAddress, rem_removed = True,
                                 rem_merkleRoot = Some (merkleRoot s2)\<rparr>, s2))
                 else (Inr \<lparr>rem_user = userAddress, rem_removed = False,
                            rem_merkleRoot = None\<rparr>, s1))))"

text \<open>
  \<^verbatim>\<open>getMerkleProof\<close> reads the state and does not change it. A tree with the root
  \<^verbatim>\<open>null\<close> is a state no method produces; there the verification has no root buffer
  to compare with and the call fails.
\<close>

definition getMerkleProof :: "lib \<Rightarrow> string \<Rightarrow> manager \<Rightarrow> error + proof_result" where
  "getMerkleProof L userAddress s =
     (if \<not> isAddress L userAddress then Inl InvalidAddressFormat
      else
        (let normalizedAddress = toLowerCase userAddress
         in (case Map_get normalizedAddress (whitelistedUsers s) of
               None \<Rightarrow> Inl UserNotWhitelisted
             | Some amount \<Rightarrow>
                 if falsy amount then Inl UserNotWhitelisted
                 else
                   (case merkleTree s of
                      None \<Rightarrow> Inl MerkleTreeNotGenerated
                    | Some t \<Rightarrow>
                        (case solidityPack L normalizedAddress amount of
                           None \<Rightarrow> Inl LibraryError
                         | Some packed \<Rightarrow>
                             (let leaf = keccak256 L packed;
                                  prf = getProof t leaf
                              in (case merkleRoot s of
                                    None \<Rightarrow> Inl LibraryError
                                  | Some root \<Rightarrow>
                                      Inr \<lparr>prf_user = userAddress, prf_amount = amount,
                                            prf_proof = prf, prf_merkleRoot = merkleRoot s,
                                            prf_leaf = leaf,
                                            prf_isValid =
                                              verify (keccak256 L) prf leaf root\<rparr>)))))))"

definition isWhitelisted :: "lib \<Rightarrow> string \<Rightarrow> manager \<Rightarrow> bool" where
  "isWhitelisted L userAddress s =
     (if \<not> isAddress L userAddress then False
      else Map_has (toLowerCase userAddress) (whitelistedUsers s))"

definition getCurrentMerkleRoot :: "manager \<Rightarrow> buffer option" where
  "getCurrentMerkleRoot s = merkleRoot s"

definition getStats :: "manager \<Rightarrow> stats" where
  "getStats s =
     \<lparr>totalUsers = length (whitelistedUsers s), stats_merkleRoot = merkleRoot s,
      hasTree = (merkleTree s \<noteq> None)\<rparr>"

text \<open>
  The \<^verbatim>\<open>forEach\<close> of \<^verbatim>\<open>batchAddToWhitelist\<close>, on the map and the counter. Nothing in
  its body throws, so the \<^verbatim>\<open>catch\<close> branch has no case.
\<close>

fun batchLoop ::
  "lib \<Rightarrow> (string \<times> string) list \<Rightarrow> (string \<times> string) list \<times> nat
     \<Rightarrow> (string \<times> string) list \<times> nat" where
  "batchLoop L [] (m, addedCount) = (m, addedCount)"
| "batchLoop L ((address, amount) # rest) (m, addedCount) =
     (if isAddress L address \<and> \<not> falsy amount \<and> amount \<noteq> ''0''
      then batchLoop L rest (Map_set (toLowerCase address) amount m, addedCount + 1)
      else batchLoop L rest (m, addedCount))"

definition batchAddToWhitelist ::
  "lib \<Rightarrow> (string \<times> string) list \<Rightarrow> manager \<Rightarrow> (error + batch_result) \<times> manager" where
  "batchAddToWhitelist L us s =
     (case batchLoop L us (whitelistedUsers s, 0) of
        (m, addedCount) \<Rightarrow>
          (let s1 = s\<lparr>whitelistedUsers := m\<rparr>
           in (case (if addedCount > 0 then generateMerkleTree L s1 else (Inr (), s1)) of
                 (Inl e, s2) \<Rightarrow> (Inl e, s2)
               | (Inr _, s2) \<Rightarrow>
                   (Inr \<lparr>bat_added = addedCount,
                         bat_total = length (whitelistedUsers s2),
                         bat_merkleRoot = merkleRoot s2\<rparr>, s2))))"

definition exportWhitelist :: "string \<Rightarrow> manager \<Rightarrow> whitelist_data" where
  "exportWhitelist now s =
     \<lparr>users = Some (object_entries (whitelistedUsers s)),
      data_merkleRoot = merkleRoot s, timestamp = now\<rparr>"

fun importLoop ::
  "lib \<Rightarrow> (string \<times> string) list \<Rightarrow> (string \<times> string) list \<Rightarrow> (string \<times> string) list" where
  "importLoop L [] m = m"
| "importLoop L ((address, amount) # rest) m =
     (if isAddress L address
      then importLoop L rest (Map_set (toLowerCase address) amount m)
      else importLoop L rest m)"

definition importWhitelist ::
  "lib \<Rightarrow> whitelist_data \<Rightarrow> manager \<Rightarrow> (error + stats) \<times> manager" where
  "importWhitelist L d s =
     (case users d of
        None \<Rightarrow> (Inl InvalidWhitelistData, s)
      | Some es \<Rightarrow>
          (let s1 = s\<lparr>whitelistedUsers := importLoop L es []\<rparr>
           in (case generateMerkleTree L s1 of
                 (Inl e, s2) \<Rightarrow> (Inl e, s2)
               | (Inr _, s2) \<Rightarrow> (Inr (getStats s2), s2))))"

subsection \<open>A reference implementation of the imported functions\<close>

text \<open>
  Modelled from the spec: the functions \<^verbatim>\<open>isAddress\<close>, \<^verbatim>\<open>formatEther\<close> and
  \<^verbatim>\<open>solidityPack\<close> of the package ethers are not part of the repository's sources.
  The spec describes an address as a 20-byte account identifier in textual form (here
  \<^verbatim>\<open>0x\<close> and 40 hexadecimal digits), an amount as a non-negative integer of up to
  256 bits (here a decimal numeral), and the packed encoding as the fixed-width
  concatenation of the 20 address bytes and the amount as 32 big-endian bytes.
  The hash function stays an argument.
\<close>

text \<open>Modelled from the spec: an address is \<^verbatim>\<open>0x\<close> followed by 40 hexadecimal digits,
  which spell its 20 bytes.\<close>

definition is_hex_digit :: "char \<Rightarrow> bool" where
  "is_hex_digit c =
     (let n = (of_char c :: nat)
      in (48 \<le> n \<and> n \<le> 57) \<or> (97 \<le> n \<and> n \<le> 102) \<or> (65 \<le> n \<and> n \<le> 70))"

definition hex_val :: "char \<Rightarrow> nat" where
  "hex_val c =
     (let n = (of_char c :: nat)
      in if n \<le> 57 then n - 48 else if 97 \<le> n then n - 87 else n - 55)"

fun hex_bytes :: "string \<Rightarrow> buffer" where
  "hex_bytes (c1 # c2 # cs) = of_nat (hex_val c1 * 16 + hex_val c2) # hex_bytes cs"
| "hex_bytes cs = []"

definition is_hex_address :: "string \<Rightarrow> bool" where
  "is_hex_address s =
     (length s = 42 \<and> take 2 s = ''0x'' \<and> list_all is_hex_digit (drop 2 s))"

text \<open>Modelled from the spec: the \<open>k\<close> low-order bytes of \<open>v\<close>, most significant first,
  and the packed encoding of an address and an amount below \<open>2^256\<close>.\<close>

fun uint_bytes :: "nat \<Rightarrow> nat \<Rightarrow> buffer" where
  "uint_bytes 0 v = []"
| "uint_bytes (Suc k) v = uint_bytes k (v div 256) @ [of_nat (v mod 256)]"

definition pack_address_uint256 :: "string \<Rightarrow> string \<Rightarrow> buffer option" where
  "pack_address_uint256 a v =
     (if is_hex_address a
      then (case parse_decimal v of
              None \<Rightarrow> None
            | Some n \<Rightarrow>
                if n < 2 ^ 256 then Some (hex_bytes (drop 2 a) @ uint_bytes 32 n) else None)
      else None)"

text \<open>Modelled from the spec: the four functions together; formatting an amount throws
  exactly when the amount is not a decimal numeral.\<close>

definition reference_lib :: "(buffer \<Rightarrow> buffer) \<Rightarrow> lib" where
  "reference_lib H =
     \<lparr>isAddress = is_hex_address,
      formatEther = (\<lambda>v. case parse_decimal v of None \<Rightarrow> None | Some n \<Rightarrow> Some ()),
      solidityPack = pack_address_uint256,
      keccak256 = H\<rparr>"

text \<open>The value a buffer spells as a big-endian number.\<close>

definition be_value :: "buffer \<Rightarrow> nat" where
  "be_value bs = foldl (\<lambda>acc b. acc * 256 + unat b) 0 bs"

text \<open>
  Concrete evaluations need a concrete hash function. Keccak-256 is not computed here;
  the identity on buffers stands in for it where a result has to be evaluated: it has
  no collisions.
\<close>

definition plain_hash :: "buffer \<Rightarrow> buffer" where
  "plain_hash b = b"

subsection \<open>Sequences of administrative operations\<close>

datatype operation =
    Add string string
  | Remove string
  | BatchAdd "(string \<times> string) list"
  | Import whitelist_data

fun step :: "lib \<Rightarrow> operation \<Rightarrow> manager \<Rightarrow> manager" where
  "step L (Add a v) s = snd (addToWhitelist L a v s)"
| "step L (Remove a) s = snd (removeFromWhitelist L a s)"
| "step L (BatchAdd us) s = snd (batchAddToWhitelist L us s)"
| "step L (Import d) s = snd (importWhitelist L d s)"

fun run :: "lib \<Rightarrow> operation list \<Rightarrow> manager \<Rightarrow> manager" where
  "run L [] s = s"
| "run L (x # xs) s = run L xs (step L x s)"

subsection \<open>Predicates on states and inputs\<close>

text \<open>Every key is the lowercase form of a string that \<^verbatim>\<open>isAddress\<close> accepts.\<close>

definition canonical_keys :: "lib \<Rightarrow> manager \<Rightarrow> bool" where
  "canonical_keys L s =
     (\<forall>k \<in> fst ` set (whitelistedUsers s). \<exists>a. isAddress L a \<and> k = toLowerCase a)"

text \<open>The amount check of the source: \<^verbatim>\<open>amount && amount !== '0'\<close>.\<close>

definition amount_accepted :: "string \<Rightarrow> bool" where
  "amount_accepted amount = (\<not> falsy amount \<and> amount \<noteq> ''0'')"

text \<open>The condition under which the batch loop writes a record.\<close>

definition passes_validation :: "lib \<Rightarrow> string \<times> string \<Rightarrow> bool" where
  "passes_validation L u = (isAddress L (fst u) \<and> \<not> falsy (snd u) \<and> snd u \<noteq> ''0'')"

text \<open>An amount that denotes a positive integer.\<close>

definition positive_amount :: "string \<Rightarrow> bool" where
  "positive_amount amount =
     (case parse_decimal amount of None \<Rightarrow> False | Some n \<Rightarrow> 0 < n)"

fun is_import :: "operation \<Rightarrow> bool" where
  "is_import (Import d) = True"
| "is_import x = False"

definition amounts_accepted :: "manager \<Rightarrow> bool" where
  "amounts_accepted s = list_all (\<lambda>e. amount_accepted (snd e)) (whitelistedUsers s)"

text \<open>
  While the whitelist is empty there is no tree, and the root is \<^verbatim>\<open>null\<close> or the
  zero root.
\<close>

definition empty_unbuilt :: "manager \<Rightarrow> bool" where
  "empty_unbuilt s =
     (whitelistedUsers s = [] \<longrightarrow>
        merkleTree s = None \<and> (merkleRoot s = None \<or> merkleRoot s = Some zero_root))"

text \<open>The state a successful rebuild leaves: rebuilding it again changes nothing.\<close>

definition rebuilt :: "lib \<Rightarrow> manager \<Rightarrow> bool" where
  "rebuilt L s = (generateMerkleTree L s = (Inr (), s))"

text \<open>
  The packed encoding is the one the spec describes, for a hexadecimal address and a
  decimal amount.
\<close>

definition packs_as_specified :: "lib \<Rightarrow> bool" where
  "packs_as_specified L =
     (\<forall>a v. is_hex_address a \<and> parse_decimal v \<noteq> None \<longrightarrow>
        solidityPack L a v = pack_address_uint256 a v)"

subsection \<open>Example inputs\<close>

definition addrA :: string where
  "addrA = ''0xaaaaaaaaaaaaaaaaaaaaaaaaaaaaaaaaaaaaaaaa''"

definition addrB :: string where
  "addrB = ''0xbbbbbbbbbbbbbbbbbbbbbbbbbbbbbbbbbbbbbbbb''"

definition addrC :: string where
  "addrC = ''0xcccccccccccccccccccccccccccccccccccccccc''"

definition addrA_upper :: string where
  "addrA_upper = ''0xAAAAAAAAAAAAAAAAAAAAAAAAAAAAAAAAAAAAAAAA''"

definition example_lib :: lib where
  "example_lib = reference_lib plain_hash"

section \<open>Auxiliary facts\<close>

lemma Map_set_keys: "fst ` set (Map_set k v m) = insert k (fst ` set m)"
  by (induction k v m rule: Map_set.induct) (simp_all add: insert_commute)

lemma Map_set_values: "set (Map_set k v m) \<subseteq> insert (k, v) (set m)"
  by (induction m) (auto split: if_splits)

lemma Map_set_not_Nil: "Map_set k v m \<noteq> []"
  by (cases m) (auto split: if_splits)

lemma Map_set_fresh: "k \<notin> fst ` set m \<Longrightarrow> Map_set k v m = m @ [(k, v)]"
  by (induction m) auto

lemma Map_delete_absent: "\<not> Map_has k m \<Longrightarrow> Map_delete k m = (False, m)"
proof -
  assume a: "\<not> Map_has k m"
  then have "k \<notin> fst ` set m"
    by (simp add: Map_has_def map_of_eq_None_iff)
  then have "filter (\<lambda>e. fst e \<noteq> k) m = m"
    by (induction m) auto
  with a show ?thesis by (simp add: Map_delete_def)
qed

lemma generateMerkleTree_whitelist:
  "whitelistedUsers (snd (generateMerkleTree L s)) = whitelistedUsers s"
  by (auto simp: generateMerkleTree_def Let_def split: option.splits)

lemma generateMerkleTree_empty:
  "whitelistedUsers s = [] \<Longrightarrow>
     generateMerkleTree L s = (Inr (), s\<lparr>merkleTree := None, merkleRoot := Some zero_root\<rparr>)"
  by (simp add: generateMerkleTree_def)

lemma batchLoop_keys:
  "batchLoop L us (m, c) = (m', c') \<Longrightarrow>
     fst ` set m' \<subseteq> fst ` set m \<union> {toLowerCase a | a. isAddress L a}"
proof (induction us arbitrary: m c)
  case Nil
  then show ?case by auto
next
  case (Cons u us)
  obtain a v where u: "u = (a, v)" by (cases u)
  show ?case
  proof (cases "isAddress L a \<and> \<not> falsy v \<and> v \<noteq> ''0''")
    case True
    with Cons.prems u have "batchLoop L us (Map_set (toLowerCase a) v m, c + 1) = (m', c')"
      by simp
    from Cons.IH [OF this] True show ?thesis
      by (auto simp: Map_set_keys)
  next
    case False
    with Cons.prems u have "batchLoop L us (m, c) = (m', c')"
      by auto
    from Cons.IH [OF this] show ?thesis .
  qed
qed

lemma importLoop_keys:
  "fst ` set (importLoop L es m) \<subseteq> fst ` set m \<union> {toLowerCase a | a. isAddress L a}"
proof (induction es arbitrary: m)
  case Nil
  then show ?case by auto
next
  case (Cons e es)
  obtain a v where e: "e = (a, v)" by (cases e)
  show ?case
    using Cons.IH [of "Map_set (toLowerCase a) v m"] Cons.IH [of m] e
    by (auto simp: Map_set_keys)
qed

lemma canonical_keys_iff:
  "canonical_keys L s \<longleftrightarrow>
     fst ` set (whitelistedUsers s) \<subseteq> {toLowerCase a | a. isAddress L a}"
  unfolding canonical_keys_def by blast

lemma generateMerkleTree_cases:
  obtains (ok) s' where "generateMerkleTree L s = (Inr (), s')"
      and "whitelistedUsers s' = whitelistedUsers s"
    | (err) "generateMerkleTree L s = (Inl LibraryError, s)"
  by (cases "generateMerkleTree L s")
     (auto simp: generateMerkleTree_def Let_def split: option.splits if_splits)

lemma addToWhitelist_whitelist:
  "whitelistedUsers (snd (addToWhitelist L a v s)) =
     (if isAddress L a \<and> \<not> falsy v \<and> v \<noteq> ''0''
      then Map_set (toLowerCase a) v (whitelistedUsers s) else whitelistedUsers s)"
  by (cases rule: generateMerkleTree_cases
        [of L "s\<lparr>whitelistedUsers := Map_set (toLowerCase a) v (whitelistedUsers s)\<rparr>"])
     (auto simp: addToWhitelist_def Let_def split: option.splits)

lemma removeFromWhitelist_whitelist:
  "whitelistedUsers (snd (removeFromWhitelist L a s)) =
     (if isAddress L a then filter (\<lambda>e. fst e \<noteq> toLowerCase a) (whitelistedUsers s)
      else whitelistedUsers s)"
  by (cases rule: generateMerkleTree_cases
        [of L "s\<lparr>whitelistedUsers :=
                  filter (\<lambda>e. fst e \<noteq> toLowerCase a) (whitelistedUsers s)\<rparr>"])
     (auto simp: removeFromWhitelist_def Map_delete_def Let_def)

lemma batchAddToWhitelist_whitelist:
  "whitelistedUsers (snd (batchAddToWhitelist L us s)) =
     fst (batchLoop L us (whitelistedUsers s, 0))"
proof -
  obtain m c where loop: "batchLoop L us (whitelistedUsers s, 0) = (m, c)"
    by (cases "batchLoop L us (whitelistedUsers s, 0)")
  show ?thesis
    by (cases rule: generateMerkleTree_cases [of L "s\<lparr>whitelistedUsers := m\<rparr>"])
       (auto simp: batchAddToWhitelist_def loop Let_def)
qed

lemma importWhitelist_whitelist:
  "whitelistedUsers (snd (importWhitelist L d s)) =
     (case users d of None \<Rightarrow> whitelistedUsers s | Some es \<Rightarrow> importLoop L es [])"
proof (cases "users d")
  case None
  then show ?thesis by (simp add: importWhitelist_def)
next
  case (Some es)
  show ?thesis
    by (cases rule: generateMerkleTree_cases [of L "s\<lparr>whitelistedUsers := importLoop L es []\<rparr>"])
       (auto simp: importWhitelist_def Some Let_def)
qed

lemma canonical_keys_add:
  "canonical_keys L s \<Longrightarrow> canonical_keys L (snd (addToWhitelist L a v s))"
  unfolding canonical_keys_iff addToWhitelist_whitelist
  by (auto simp: Map_set_keys)

lemma canonical_keys_remove:
  "canonical_keys L s \<Longrightarrow> canonical_keys L (snd (removeFromWhitelist L a s))"
  unfolding canonical_keys_iff removeFromWhitelist_whitelist
  by auto

lemma canonical_keys_batch:
  assumes "canonical_keys L s"
  shows "canonical_keys L (snd (batchAddToWhitelist L us s))"
proof -
  obtain m c where loop: "batchLoop L us (whitelistedUsers s, 0) = (m, c)"
    by (cases "batchLoop L us (whitelistedUsers s, 0)")
  from batchLoop_keys [OF loop] assms show ?thesis
    unfolding canonical_keys_iff batchAddToWhitelist_whitelist loop
    by (simp only: fst_conv) blast
qed

lemma canonical_keys_import:
  "canonical_keys L s \<Longrightarrow> canonical_keys L (snd (importWhitelist L d s))"
  using importLoop_keys [of L _ "[]"]
  unfolding canonical_keys_iff importWhitelist_whitelist
  by (auto split: option.splits)

lemma canonical_keys_step: "canonical_keys L s \<Longrightarrow> canonical_keys L (step L x s)"
  by (cases x)
     (simp_all add: canonical_keys_add canonical_keys_remove canonical_keys_batch
        canonical_keys_import)

lemma canonical_keys_run: "canonical_keys L s \<Longrightarrow> canonical_keys L (run L xs s)"
  by (induction xs arbitrary: s) (simp_all add: canonical_keys_step)

lemma batchLoop_count:
  "batchLoop L us (m, c) = (m', c') \<Longrightarrow> (c' = c \<and> m' = m) \<or> (c < c' \<and> m' \<noteq> [])"
proof (induction us arbitrary: m c)
  case Nil
  then show ?case by simp
next
  case (Cons u us)
  obtain a v where u: "u = (a, v)" by (cases u)
  show ?case
  proof (cases "isAddress L a \<and> \<not> falsy v \<and> v \<noteq> ''0''")
    case True
    with Cons.prems u have "batchLoop L us (Map_set (toLowerCase a) v m, c + 1) = (m', c')"
      by simp
    from Cons.IH [OF this] show ?thesis
      by (auto simp: Map_set_not_Nil)
  next
    case False
    with Cons.prems u have "batchLoop L us (m, c) = (m', c')"
      by auto
    from Cons.IH [OF this] show ?thesis .
  qed
qed

lemma empty_unbuilt_rebuild: "empty_unbuilt (snd (generateMerkleTree L s))"
  by (auto simp: empty_unbuilt_def generateMerkleTree_def Let_def split: option.splits)

lemma empty_unbuilt_add: "empty_unbuilt s \<Longrightarrow> empty_unbuilt (snd (addToWhitelist L a v s))"
  using empty_unbuilt_rebuild
    [of L "s\<lparr>whitelistedUsers := Map_set (toLowerCase a) v (whitelistedUsers s)\<rparr>"]
  by (auto simp: addToWhitelist_def Let_def empty_unbuilt_def Map_set_not_Nil
        split: option.splits prod.splits sum.splits)

lemma empty_unbuilt_remove:
  "empty_unbuilt s \<Longrightarrow> empty_unbuilt (snd (removeFromWhitelist L a s))"
proof (cases "isAddress L a \<and> Map_has (toLowerCase a) (whitelistedUsers s)")
  case True
  let ?s1 = "s\<lparr>whitelistedUsers := filter (\<lambda>e. fst e \<noteq> toLowerCase a) (whitelistedUsers s)\<rparr>"
  from True have "snd (removeFromWhitelist L a s) = snd (generateMerkleTree L ?s1)"
    by (auto simp: removeFromWhitelist_def Map_delete_def Let_def split: prod.splits sum.splits)
  then show ?thesis by (simp add: empty_unbuilt_rebuild)
next
  case False
  assume "empty_unbuilt s"
  with False show ?thesis
    by (auto simp: removeFromWhitelist_def Map_delete_absent)
qed

lemma empty_unbuilt_batch:
  assumes "empty_unbuilt s"
  shows "empty_unbuilt (snd (batchAddToWhitelist L us s))"
proof -
  obtain m c where loop: "batchLoop L us (whitelistedUsers s, 0) = (m, c)"
    by (cases "batchLoop L us (whitelistedUsers s, 0)")
  show ?thesis
  proof (cases "0 < c")
    case True
    then have "snd (batchAddToWhitelist L us s) = snd (generateMerkleTree L (s\<lparr>whitelistedUsers := m\<rparr>))"
      by (auto simp: batchAddToWhitelist_def loop Let_def split: prod.splits sum.splits)
    then show ?thesis by (simp add: empty_unbuilt_rebuild)
  next
    case False
    with batchLoop_count [OF loop] have "m = whitelistedUsers s" by auto
    with False assms show ?thesis
      by (simp add: batchAddToWhitelist_def loop)
  qed
qed

lemma empty_unbuilt_import:
  "empty_unbuilt s \<Longrightarrow> empty_unbuilt (snd (importWhitelist L d s))"
proof (cases "users d")
  case None
  assume "empty_unbuilt s"
  with None show ?thesis by (simp add: importWhitelist_def)
next
  case (Some es)
  then have "snd (importWhitelist L d s) =
      snd (generateMerkleTree L (s\<lparr>whitelistedUsers := importLoop L es []\<rparr>))"
    by (auto simp: importWhitelist_def Let_def split: prod.splits sum.splits)
  then show ?thesis by (simp add: empty_unbuilt_rebuild)
qed

lemma empty_unbuilt_step: "empty_unbuilt s \<Longrightarrow> empty_unbuilt (step L x s)"
  by (cases x)
     (simp_all add: empty_unbuilt_add empty_unbuilt_remove empty_unbuilt_batch
        empty_unbuilt_import)

lemma empty_unbuilt_run: "empty_unbuilt s \<Longrightarrow> empty_unbuilt (run L xs s)"
  by (induction xs arbitrary: s) (simp_all add: empty_unbuilt_step)

lemma uint_bytes_numeral:
  "uint_bytes (numeral k) v = uint_bytes (pred_numeral k) (v div 256) @ [of_nat (v mod 256)]"
proof -
  have "numeral k = Suc (pred_numeral k)" by (rule numeral_eq_Suc)
  then show ?thesis by (simp only: uint_bytes.simps)
qed

lemma example_lib_sel:
  "isAddress example_lib = is_hex_address"
  "formatEther example_lib = (\<lambda>v. case parse_decimal v of None \<Rightarrow> None | Some n \<Rightarrow> Some ())"
  "solidityPack example_lib = pack_address_uint256"
  "keccak256 example_lib = (\<lambda>b. b)"
  by (simp_all add: example_lib_def reference_lib_def plain_hash_def fun_eq_iff)

lemma example_isAddress:
  "is_hex_address addrA" "is_hex_address addrB" "is_hex_address addrC"
  "is_hex_address addrA_upper" "\<not> is_hex_address ''0x12''"
  by (simp_all add: addrA_def addrB_def addrC_def addrA_upper_def is_hex_address_def
        is_hex_digit_def)

lemma example_toLowerCase:
  "toLowerCase addrA = addrA" "toLowerCase addrB = addrB" "toLowerCase addrC = addrC"
  "toLowerCase addrA_upper = addrA"
  by (simp_all add: addrA_def addrB_def addrC_def addrA_upper_def toLowerCase_def
        lower_char_def char_of_def bit_Suc_0_iff)

lemma example_distinct:
  "addrA \<noteq> addrB" "addrA \<noteq> addrC" "addrB \<noteq> addrC"
  "addrB \<noteq> addrA" "addrC \<noteq> addrA" "addrC \<noteq> addrB"
  by (simp_all add: addrA_def addrB_def addrC_def)

lemma example_parse:
  "parse_decimal ''00'' = Some 0" "parse_decimal ''abc'' = None"
  "parse_decimal ''0'' = Some 0" "parse_decimal ''5'' = Some 5"
  "parse_decimal ''7'' = Some 7"
  "parse_decimal ''1000'' = Some 1000" "parse_decimal ''2000'' = Some 2000"
  "parse_decimal ''500'' = Some 500"
  by (simp_all add: parse_decimal_def is_digit_def digit_val_def)

lemmas example_eval =
  example_lib_sel example_isAddress example_toLowerCase example_distinct example_parse
  falsy_def

lemma batchLoop_fold:
  "batchLoop L us (m, c) =
     (fold (\<lambda>u. Map_set (toLowerCase (fst u)) (snd u)) (filter (passes_validation L) us) m,
      c + length (filter (passes_validation L) us))"
  by (induction us arbitrary: m c) (auto simp: passes_validation_def)

lemma list_all_Map_set:
  "list_all P m \<Longrightarrow> P (k, v) \<Longrightarrow> list_all P (Map_set k v m)"
  using Map_set_values [of k v m] by (auto simp: list_all_iff)

lemma amounts_accepted_fold:
  "list_all (\<lambda>e. amount_accepted (snd e)) m \<Longrightarrow>
     list_all (\<lambda>e. amount_accepted (snd e))
       (fold (\<lambda>u. Map_set (toLowerCase (fst u)) (snd u)) (filter (passes_validation L) us) m)"
proof (induction us arbitrary: m)
  case Nil
  then show ?case by simp
next
  case (Cons u us)
  show ?case
  proof (cases "passes_validation L u")
    case True
    then have "amount_accepted (snd u)"
      by (simp add: passes_validation_def amount_accepted_def)
    with Cons.prems have "list_all (\<lambda>e. amount_accepted (snd e))
        (Map_set (toLowerCase (fst u)) (snd u) m)"
      by (intro list_all_Map_set) simp_all
    from Cons.IH [OF this] True show ?thesis by simp
  next
    case False
    with Cons.IH [OF Cons.prems] show ?thesis by simp
  qed
qed

lemma amounts_accepted_add:
  "amounts_accepted s \<Longrightarrow> amounts_accepted (snd (addToWhitelist L a v s))"
  unfolding amounts_accepted_def addToWhitelist_whitelist
  by (auto intro!: list_all_Map_set simp: amount_accepted_def)

lemma amounts_accepted_remove:
  "amounts_accepted s \<Longrightarrow> amounts_accepted (snd (removeFromWhitelist L a s))"
  unfolding amounts_accepted_def removeFromWhitelist_whitelist
  by (auto simp: list_all_iff)

lemma amounts_accepted_batch:
  "amounts_accepted s \<Longrightarrow> amounts_accepted (snd (batchAddToWhitelist L us s))"
  unfolding amounts_accepted_def batchAddToWhitelist_whitelist batchLoop_fold
  by (simp add: amounts_accepted_fold)

lemma amounts_accepted_run:
  "amounts_accepted s \<Longrightarrow> list_all (\<lambda>x. \<not> is_import x) xs \<Longrightarrow>
     amounts_accepted (run L xs s)"
proof (induction xs arbitrary: s)
  case Nil
  then show ?case by simp
next
  case (Cons x xs)
  from Cons.prems have "amounts_accepted (step L x s)"
    by (cases x)
       (simp_all add: amounts_accepted_add amounts_accepted_remove amounts_accepted_batch)
  with Cons show ?case by simp
qed

lemma replicate_numeral:
  "replicate (numeral k) x = x # replicate (pred_numeral k) x"
proof -
  have "numeral k = Suc (pred_numeral k)" by (rule numeral_eq_Suc)
  then show ?thesis by (simp only: replicate.simps)
qed

lemma new_MerkleManager_sel:
  "whitelistedUsers new_MerkleManager = []" "merkleTree new_MerkleManager = None"
  "merkleRoot new_MerkleManager = None"
  by (simp_all add: new_MerkleManager_def)

lemma importLoop_append:
  "distinct (map fst es) \<Longrightarrow>
   list_all (\<lambda>e. isAddress L (fst e) \<and> toLowerCase (fst e) = fst e) es \<Longrightarrow>
   fst ` set m \<inter> fst ` set es = {} \<Longrightarrow>
   importLoop L es m = m @ es"
proof (induction es arbitrary: m)
  case Nil
  then show ?case by simp
next
  case (Cons e es)
  obtain a v where e: "e = (a, v)" by (cases e)
  from Cons.prems e have fresh: "a \<notin> fst ` set m"
    by auto
  from Cons.prems e have "fst ` set (m @ [(a, v)]) \<inter> fst ` set es = {}"
    by auto
  with Cons.IH [of "m @ [(a, v)]"] Cons.prems have "importLoop L es (m @ [(a, v)]) = (m @ [(a, v)]) @ es"
    by simp
  with Cons.prems e fresh show ?case
    by (simp add: Map_set_fresh)
qed

lemma object_entries_plain:
  "list_all (\<lambda>e. \<not> is_array_index (fst e)) es \<Longrightarrow> object_entries es = es"
proof -
  assume a: "list_all (\<lambda>e. \<not> is_array_index (fst e)) es"
  then have "filter (\<lambda>e. is_array_index (fst e)) es = []"
    by (induction es) auto
  moreover from a have "filter (\<lambda>e. \<not> is_array_index (fst e)) es = es"
    by (induction es) auto
  ultimately show ?thesis by (simp add: object_entries_def)
qed

lemma rebuilt_after:
  "generateMerkleTree L s0 = (Inr (), s) \<Longrightarrow> rebuilt L s"
  by (auto simp: rebuilt_def generateMerkleTree_def Let_def split: if_splits option.splits)

lemma example_pack:
  "pack_address_uint256 addrA ''5'' = Some (replicate 20 170 @ replicate 31 0 @ [5])"
  "pack_address_uint256 addrC ''7'' = Some (replicate 20 204 @ replicate 31 0 @ [7])"
  "pack_address_uint256 addrB ''abc'' = None"
  "pack_address_uint256 addrA ''1000'' = Some (replicate 20 170 @ replicate 30 0 @ [3, 232])"
  "pack_address_uint256 addrB ''2000'' = Some (replicate 20 187 @ replicate 30 0 @ [7, 208])"
  "pack_address_uint256 addrC ''500'' = Some (replicate 20 204 @ replicate 30 0 @ [1, 244])"
  by (simp_all add: pack_address_uint256_def example_eval)
     (simp_all add: addrA_def addrB_def addrC_def hex_val_def uint_bytes_numeral
        replicate_numeral)

lemma generateMerkleTree_ok:
  "whitelistedUsers s \<noteq> [] \<Longrightarrow> leavesOf L (whitelistedUsers s) = Some lvs \<Longrightarrow>
     generateMerkleTree L s =
       (Inr (), s\<lparr>merkleTree := Some (new_MerkleTree (keccak256 L) lvs),
                     merkleRoot := Some (getRoot (new_MerkleTree (keccak256 L) lvs))\<rparr>)"
  by (simp add: generateMerkleTree_def Let_def)

lemma generateMerkleTree_fail:
  "leavesOf L (whitelistedUsers s) = None \<Longrightarrow>
     generateMerkleTree L s = (Inl LibraryError, s)"
  by (cases "whitelistedUsers s") (simp_all add: generateMerkleTree_def)

lemma addToWhitelist_ok:
  assumes "isAddress L a" and "v \<noteq> []" and "v \<noteq> ''0''" and "formatEther L v = Some ()"
    and "leavesOf L (Map_set (toLowerCase a) v (whitelistedUsers s)) = Some lvs"
  shows "snd (addToWhitelist L a v s) =
           s\<lparr>whitelistedUsers := Map_set (toLowerCase a) v (whitelistedUsers s),
              merkleTree := Some (new_MerkleTree (keccak256 L) lvs),
              merkleRoot := Some (getRoot (new_MerkleTree (keccak256 L) lvs))\<rparr>"
  using assms
    generateMerkleTree_ok [of "s\<lparr>whitelistedUsers :=
        Map_set (toLowerCase a) v (whitelistedUsers s)\<rparr>" L lvs]
  by (simp add: addToWhitelist_def falsy_def Map_set_not_Nil)

lemma batchAddToWhitelist_fail:
  assumes "filter (passes_validation L) us \<noteq> []"
    and "leavesOf L (fold (\<lambda>u. Map_set (toLowerCase (fst u)) (snd u))
            (filter (passes_validation L) us) (whitelistedUsers s)) = None"
  shows "snd (batchAddToWhitelist L us s) =
           s\<lparr>whitelistedUsers := fold (\<lambda>u. Map_set (toLowerCase (fst u)) (snd u))
                (filter (passes_validation L) us) (whitelistedUsers s)\<rparr>"
  using assms
    generateMerkleTree_fail [of L "s\<lparr>whitelistedUsers :=
        fold (\<lambda>u. Map_set (toLowerCase (fst u)) (snd u))
          (filter (passes_validation L) us) (whitelistedUsers s)\<rparr>"]
  by (simp add: batchAddToWhitelist_def batchLoop_fold)

lemma new_MerkleTree_sel:
  "leaves (new_MerkleTree H lvs) = lvs" "layers (new_MerkleTree H lvs) = createHashes H lvs"
  by (simp_all add: new_MerkleTree_def)

lemma Buffer_compare_swap: "Buffer_compare b a = - Buffer_compare a b"
  by (induction a b rule: Buffer_compare.induct) auto

lemma Buffer_compare_range: "Buffer_compare a b \<in> {- 1, 0, 1}"
  by (induction a b rule: Buffer_compare.induct) auto

lemma Buffer_compare_eq: "Buffer_compare a b = 0 \<longleftrightarrow> a = b"
  by (induction a b rule: Buffer_compare.induct) auto

lemma Buffer_compare_less: "Buffer_compare a b = - 1 \<longleftrightarrow> ord_class.lexordp a b"
  by (induction a b rule: Buffer_compare.induct) auto

lemma Buffer_compare_greater: "0 < Buffer_compare a b \<longleftrightarrow> ord_class.lexordp b a"
  using Buffer_compare_less [of b a] Buffer_compare_swap [of b a] Buffer_compare_range [of a b]
  by auto

lemma hashPair_commute: "hashPair H l r = hashPair H r l"
proof (cases "l = r")
  case True
  then show ?thesis by simp
next
  case False
  then have "Buffer_compare l r \<noteq> 0" by (simp add: Buffer_compare_eq)
  with Buffer_compare_swap [of r l] show ?thesis
    by (auto simp: hashPair_def)
qed

lemma createHashes_two: "createHashes H [l, r] = [[l, r], [hashPair H l r]]"
  by (simp add: createHashes.simps)

lemma createHashes_one: "createHashes H [x] = [[x]]"
  by (simp add: createHashes.simps)

lemma getRoot_two: "getRoot (new_MerkleTree H [l, r]) = hashPair H l r"
  by (simp add: getRoot_def new_MerkleTree_def createHashes_two)

lemma rebuild_function_of_entries:
  assumes "generateMerkleTree L s = (Inr (), s')" and "generateMerkleTree L t = (Inr (), t')"
    and "whitelistedUsers s = whitelistedUsers t"
  shows "merkleRoot s' = merkleRoot t' \<and> merkleTree s' = merkleTree t'"
  using assms
  by (auto simp: generateMerkleTree_def Let_def split: if_splits option.splits)

lemma example_state:
  "snd (addToWhitelist example_lib addrA ''1000'' new_MerkleManager) =
     \<lparr>whitelistedUsers = [(addrA, ''1000'')],
      merkleTree = Some (new_MerkleTree (\<lambda>b. b) [replicate 20 170 @ replicate 30 0 @ [3, 232]]),
      merkleRoot = Some (replicate 20 170 @ replicate 30 0 @ [3, 232])\<rparr>"
  using addToWhitelist_ok [of example_lib addrA "''1000''" new_MerkleManager
      "[replicate 20 170 @ replicate 30 0 @ [3, 232]]"]
  by (simp add: example_eval example_pack new_MerkleManager_def getRoot_def
        new_MerkleTree_sel createHashes_one)

lemma example_state_rebuilt:
  "rebuilt example_lib (snd (addToWhitelist example_lib addrA ''1000'' new_MerkleManager))"
  unfolding example_state
  by (simp add: rebuilt_def generateMerkleTree_def example_eval example_pack getRoot_def
        new_MerkleTree_sel createHashes_one)

lemma example_not_index: "\<not> is_array_index addrA"
  by (simp add: is_array_index_def parse_decimal_def addrA_def is_digit_def)

lemma leavesOf_nth:
  "leavesOf L es = Some lvs \<Longrightarrow>
     length lvs = length es
     \<and> (\<forall>i < length es. \<exists>p. solidityPack L (fst (es ! i)) (snd (es ! i)) = Some p
                                \<and> lvs ! i = keccak256 L p)"
proof (induction es arbitrary: lvs)
  case Nil
  then show ?case by simp
next
  case (Cons e es)
  obtain a v where e: "e = (a, v)" by (cases e)
  from Cons.prems e obtain p rest where p: "solidityPack L a v = Some p"
    and rest: "leavesOf L es = Some rest" and lvs: "lvs = keccak256 L p # rest"
    by (auto split: option.splits)
  from Cons.IH [OF rest] have len: "length rest = length es"
    and nth: "\<And>i. i < length es \<Longrightarrow>
        \<exists>q. solidityPack L (fst (es ! i)) (snd (es ! i)) = Some q \<and> rest ! i = keccak256 L q"
    by auto
  show ?case
  proof (intro conjI allI impI)
    show "length lvs = length (e # es)" by (simp add: lvs len)
  next
    fix i assume "i < length (e # es)"
    then show "\<exists>q. solidityPack L (fst ((e # es) ! i)) (snd ((e # es) ! i)) = Some q
                    \<and> lvs ! i = keccak256 L q"
      using p nth e lvs by (cases i) auto
  qed
qed

lemma length_nextLayer: "length (nextLayer H nodes) = (length nodes + 1) div 2"
  by (induction H nodes rule: nextLayer.induct) auto

lemma nextLayer_pair:
  "2 * j + 1 < length nodes \<Longrightarrow>
     nextLayer H nodes ! j = hashPair H (nodes ! (2 * j)) (nodes ! (2 * j + 1))"
proof (induction H nodes arbitrary: j rule: nextLayer.induct)
  case (3 H l r rest)
  then show ?case by (cases j) auto
qed simp_all

lemma nextLayer_promoted:
  "length nodes = 2 * j + 1 \<Longrightarrow> nextLayer H nodes ! j = nodes ! (2 * j)"
proof (induction H nodes arbitrary: j rule: nextLayer.induct)
  case (3 H l r rest)
  then show ?case by (cases j) auto
qed simp_all

lemma createHashes_hd: "createHashes H nodes \<noteq> [] \<and> hd (createHashes H nodes) = nodes"
  by (subst (1 2) createHashes.simps) simp

lemma createHashes_0: "createHashes H nodes ! 0 = nodes"
  by (subst createHashes.simps) simp

lemma createHashes_Suc:
  "Suc k < length (createHashes H nodes) \<Longrightarrow>
     createHashes H nodes ! Suc k = nextLayer H (createHashes H nodes ! k)"
proof (induction H nodes arbitrary: k rule: createHashes.induct)
  case (1 H nodes)
  show ?case
  proof (cases "1 < length nodes")
    case True
    then have unfold: "createHashes H nodes = nodes # createHashes H (nextLayer H nodes)"
      by (subst createHashes.simps) simp
    show ?thesis
    proof (cases k)
      case 0
      with unfold show ?thesis
        by (simp add: createHashes_0)
    next
      case (Suc k')
      with "1.prems" unfold have "Suc k' < length (createHashes H (nextLayer H nodes))"
        by simp
      from "1.IH" [OF True this] Suc unfold show ?thesis by simp
    qed
  next
    case False
    then have "createHashes H nodes = [nodes]"
      by (subst createHashes.simps) simp
    with "1.prems" show ?thesis by simp
  qed
qed

lemma hashPair_sorted:
  "hashPair H l r = H (if ord_class.lexordp r l then r @ l else l @ r)"
  by (simp add: hashPair_def Buffer_compare_greater)

lemma length_hex_bytes: "length (hex_bytes s) = length s div 2"
  by (induction s rule: hex_bytes.induct) auto

lemma length_uint_bytes: "length (uint_bytes k v) = k"
  by (induction k arbitrary: v) auto

lemma be_value_snoc: "be_value (bs @ [b]) = be_value bs * 256 + unat b"
  by (simp add: be_value_def)

lemma be_value_uint_bytes: "be_value (uint_bytes k v) = v mod 256 ^ k"
proof (induction k arbitrary: v)
  case 0
  then show ?case by (simp add: be_value_def)
next
  case (Suc k)
  have "unat (of_nat (v mod 256) :: byte) = v mod 256"
    by (simp add: unat_of_nat)
  with Suc show ?case
    by (simp add: be_value_snoc mod_mult2_eq)
qed

lemma pack_address_uint256_layout:
  assumes "pack_address_uint256 a v = Some p"
  shows "\<exists>n. parse_decimal v = Some n
            \<and> p = hex_bytes (drop 2 a) @ uint_bytes 32 n
            \<and> length (hex_bytes (drop 2 a)) = 20
            \<and> length (uint_bytes 32 n) = 32 \<and> be_value (uint_bytes 32 n) = n"
proof -
  from assms obtain n where n: "parse_decimal v = Some n" and small: "n < 2 ^ 256"
    and p: "p = hex_bytes (drop 2 a) @ uint_bytes 32 n" and a: "is_hex_address a"
    by (auto simp: pack_address_uint256_def split: if_splits option.splits)
  have "(256 :: nat) ^ 32 = 2 ^ 256" by simp
  with small have "be_value (uint_bytes 32 n) = n"
    by (simp add: be_value_uint_bytes)
  with n p a show ?thesis
    by (simp add: length_hex_bytes length_uint_bytes is_hex_address_def)
qed

lemma map_of_nth:
  "map_of m k = Some v \<Longrightarrow> \<exists>i < length m. m ! i = (k, v)"
  by (meson in_set_conv_nth map_of_SomeD)

lemma verifyLoop_append:
  "verifyLoop H (p @ q) h = verifyLoop H q (verifyLoop H p h)"
  by (induction p arbitrary: h) simp_all

lemma verify_pair:
  "(if Buffer_compare h d = - 1 then H (h @ d) else H (d @ h)) = hashPair H h d"
  using Buffer_compare_range [of h d] Buffer_compare_eq [of h d]
  by (auto simp: hashPair_def)

lemma verify_sibling:
  assumes "i < length nodes"
  shows "verifyLoop H
           (if (if i mod 2 = 1 then i - 1 else i + 1) < length nodes
            then [nodes ! (if i mod 2 = 1 then i - 1 else i + 1)] else [])
           (nodes ! i) = nextLayer H nodes ! (i div 2)"
proof (cases "i mod 2 = 1")
  case True
  then obtain j where j: "i = 2 * j + 1"
    by (metis add.commute mod_eq_0_iff_dvd mult_div_mod_eq odd_iff_mod_2_eq_one)
  with assms have "nextLayer H nodes ! j = hashPair H (nodes ! (2 * j)) (nodes ! (2 * j + 1))"
    by (simp add: nextLayer_pair)
  with j assms show ?thesis
    by (simp add: verify_pair hashPair_commute [of H "nodes ! Suc (2 * j)"])
next
  case False
  then obtain j where j: "i = 2 * j"
    by (metis dvd_def even_iff_mod_2_eq_zero mod_2_eq_odd not_mod_2_eq_1_eq_0)
  show ?thesis
  proof (cases "2 * j + 1 < length nodes")
    case True
    then have "nextLayer H nodes ! j = hashPair H (nodes ! (2 * j)) (nodes ! (2 * j + 1))"
      by (simp add: nextLayer_pair)
    with j True show ?thesis
      by (simp add: verify_pair)
  next
    case False
    with assms j have "length nodes = 2 * j + 1" by simp
    then have "nextLayer H nodes ! j = nodes ! (2 * j)"
      by (rule nextLayer_promoted)
    with j False show ?thesis by simp
  qed
qed

lemma getRoot_step:
  "1 < length nodes \<Longrightarrow>
     getRoot (new_MerkleTree H nodes) = getRoot (new_MerkleTree H (nextLayer H nodes))"
  using createHashes_hd [of H "nextLayer H nodes"]
  by (subst (1) getRoot_def, subst (1 2) new_MerkleTree_def)
     (simp add: createHashes.simps [of H nodes] getRoot_def new_MerkleTree_def)

lemma proofLoop_root:
  "i < length nodes \<Longrightarrow>
     verifyLoop H (proofLoop (createHashes H nodes) i) (nodes ! i)
       = getRoot (new_MerkleTree H nodes)"
proof (induction H nodes arbitrary: i rule: createHashes.induct)
  case (1 H nodes)
  show ?case
  proof (cases "1 < length nodes")
    case True
    then have unfold: "createHashes H nodes = nodes # createHashes H (nextLayer H nodes)"
      by (subst createHashes.simps) simp
    from "1.prems" have "i div 2 < length (nextLayer H nodes)"
      by (simp add: length_nextLayer)
    note ih = "1.IH" [OF True this]
    let ?sib = "if (if i mod 2 = 1 then i - 1 else i + 1) < length nodes
                then [nodes ! (if i mod 2 = 1 then i - 1 else i + 1)] else []"
    let ?rest = "createHashes H (nextLayer H nodes)"
    have pl: "proofLoop (createHashes H nodes) i = ?sib @ proofLoop ?rest (i div 2)"
      by (simp only: unfold proofLoop.simps Let_def)
    have "verifyLoop H (proofLoop (createHashes H nodes) i) (nodes ! i)
        = verifyLoop H (proofLoop ?rest (i div 2)) (verifyLoop H ?sib (nodes ! i))"
      by (simp only: pl verifyLoop_append)
    also have "\<dots> = verifyLoop H (proofLoop ?rest (i div 2)) (nextLayer H nodes ! (i div 2))"
      by (simp only: verify_sibling [OF "1.prems"])
    also have "\<dots> = getRoot (new_MerkleTree H (nextLayer H nodes))"
      by (rule ih)
    also have "\<dots> = getRoot (new_MerkleTree H nodes)"
      by (simp only: getRoot_step [OF True])
    finally show ?thesis .
  next
    case False
    with "1.prems" obtain x where x: "nodes = [x]" and i: "i = 0"
      by (cases nodes) auto
    then show ?thesis
      by (simp add: createHashes_one getRoot_def new_MerkleTree_def)
  qed
qed

lemma indexLoop_position:
  "indexLoop leaf xs k idx = Some j \<Longrightarrow>
     idx = Some j \<or> (k \<le> j \<and> j - k < length xs \<and> xs ! (j - k) = leaf)"
proof (induction xs arbitrary: k idx)
  case Nil
  then show ?case by simp
next
  case (Cons x xs)
  from Cons.prems
  have "indexLoop leaf xs (k + 1) (if Buffer_compare leaf x = 0 then Some k else idx) = Some j"
    by simp
  from Cons.IH [OF this] show ?case
    by (auto simp: Buffer_compare_eq Suc_diff_le split: if_splits)
qed

lemma indexLoop_found:
  "leaf \<in> set xs \<or> idx \<noteq> None \<Longrightarrow> indexLoop leaf xs k idx \<noteq> None"
  by (induction xs arbitrary: k idx) (auto simp: Buffer_compare_eq)

lemma verify_getProof:
  assumes "leaf \<in> set lvs"
  shows "verify H (getProof (new_MerkleTree H lvs) leaf) leaf (getRoot (new_MerkleTree H lvs))"
proof -
  from indexLoop_found [of leaf lvs None 0] assms
  obtain j where j: "indexLoop leaf lvs 0 None = Some j" by auto
  from indexLoop_position [OF j] have "j < length lvs" and "lvs ! j = leaf" by auto
  with proofLoop_root [of j lvs H] j show ?thesis
    by (simp add: verify_def getProof_def new_MerkleTree_sel Buffer_compare_eq)
qed

lemma proof_valid_when_rebuilt:
  assumes "rebuilt L s" and "getMerkleProof L u s = Inr r"
  shows "prf_isValid r"
proof -
  let ?H = "keccak256 L"
  from assms(2) obtain v p t root where v: "map_of (whitelistedUsers s) (toLowerCase u) = Some v"
    and p: "solidityPack L (toLowerCase u) v = Some p"
    and t: "merkleTree s = Some t" and root: "merkleRoot s = Some root"
    and r: "prf_isValid r = verify ?H (getProof t (?H p)) (?H p) root"
    by (auto simp: getMerkleProof_def Map_get_def Let_def split: if_splits option.splits)
  from v have ne: "whitelistedUsers s \<noteq> []" by auto
  with assms(1) obtain lvs where lvs: "leavesOf L (whitelistedUsers s) = Some lvs"
    and s: "s = s\<lparr>merkleTree := Some (new_MerkleTree ?H lvs),
                   merkleRoot := Some (getRoot (new_MerkleTree ?H lvs))\<rparr>"
    by (auto simp: rebuilt_def generateMerkleTree_def Let_def split: option.splits)
  from s t have t_eq: "t = new_MerkleTree ?H lvs"
    by (metis manager.select_convs(2) manager.surjective manager.update_convs(2)
          manager.update_convs(3) option.inject)
  from s root have root_eq: "root = getRoot (new_MerkleTree ?H lvs)"
    by (metis manager.select_convs(3) manager.surjective manager.update_convs(3) option.inject)
  from map_of_nth [OF v] obtain i where i: "i < length (whitelistedUsers s)"
    and at: "whitelistedUsers s ! i = (toLowerCase u, v)"
    by blast
  from leavesOf_nth [OF lvs] i at p have "length lvs = length (whitelistedUsers s)"
    and "lvs ! i = ?H p"
    by auto
  with i have "?H p \<in> set lvs"
    by (metis nth_mem)
  from verify_getProof [OF this] r show ?thesis
    by (simp add: t_eq root_eq)
qed

lemma getRoot_three:
  "getRoot (new_MerkleTree H [a, b, c]) = hashPair H (hashPair H a b) c"
  by (simp add: getRoot_def new_MerkleTree_def createHashes.simps)

lemma sorted_concat_eq:
  assumes "length x = n" and "length y = n" and "length x' = n" and "length y' = n"
    and "(if 0 < Buffer_compare x y then y @ x else x @ y)
         = (if 0 < Buffer_compare x' y' then y' @ x' else x' @ y')"
  shows "(x = x' \<and> y = y') \<or> (x = y' \<and> y = x')"
  using assms by (auto split: if_splits)

lemma three_leaf_roots_collision:
  assumes len: "\<And>x. length (H x) = 32" and pb: "length pb \<noteq> 64" and ne: "pb \<noteq> pc"
    and eq: "getRoot (new_MerkleTree H [H pa, H pb, H pc])
             = getRoot (new_MerkleTree H [H pa, H pc, H pb])"
  shows "\<exists>x y. x \<noteq> y \<and> H x = H y"
proof (rule ccontr)
  assume "\<not> (\<exists>x y. x \<noteq> y \<and> H x = H y)"
  then have inj: "\<And>x y. H x = H y \<Longrightarrow> x = y" by blast
  let ?ab = "hashPair H (H pa) (H pb)" and ?ac = "hashPair H (H pa) (H pc)"
  have lab: "length ?ab = 32" and lac: "length ?ac = 32"
    by (simp_all add: hashPair_def len)
  from eq have "hashPair H ?ab (H pc) = hashPair H ?ac (H pb)"
    by (simp add: getRoot_three)
  then have "(if 0 < Buffer_compare ?ab (H pc) then H pc @ ?ab else ?ab @ H pc)
           = (if 0 < Buffer_compare ?ac (H pb) then H pb @ ?ac else ?ac @ H pb)"
    unfolding hashPair_def [of H ?ab] hashPair_def [of H ?ac] by (rule inj)
  from sorted_concat_eq [OF lab len lac len this]
  have "H pc = H pb \<or> ?ab = H pb" by auto
  then show False
  proof
    assume "H pc = H pb"
    with inj ne show False by auto
  next
    assume "?ab = H pb"
    then have "(if 0 < Buffer_compare (H pa) (H pb) then H pb @ H pa else H pa @ H pb) = pb"
      unfolding hashPair_def by (rule inj)
    then have "length pb
        = length (if 0 < Buffer_compare (H pa) (H pb) then H pb @ H pa else H pa @ H pb)"
      by simp
    then have "length pb = 64"
      by (simp add: len)
    with pb show False by simp
  qed
qed

lemma addToWhitelist_not_InvalidAmount:
  "isAddress L a \<Longrightarrow> v \<noteq> [] \<Longrightarrow> v \<noteq> ''0'' \<Longrightarrow>
     fst (addToWhitelist L a v s) \<noteq> Inl InvalidAmount"
  by (cases rule: generateMerkleTree_cases
        [of L "s\<lparr>whitelistedUsers := Map_set (toLowerCase a) v (whitelistedUsers s)\<rparr>"])
     (auto simp: addToWhitelist_def Let_def falsy_def split: option.splits)

section \<open>The claims\<close>

subsection \<open>C1: the root and the order of insertion\<close>

text \<open>
  Claim C1, amended. Inserting record A and then record B into a new manager gives
  the same root as inserting B and then A, when the two canonical addresses differ
  and both insertions succeed: the root is the hash of the sorted pair of the two
  leaves. In general a rebuild computes the tree and the root from the sequence of
  entries in the map's insertion order: two states with the same sequence get the same
  tree and root.
\<close>

theorem root_and_insertion_order:
  "(isAddress L a \<and> isAddress L b \<and> toLowerCase a \<noteq> toLowerCase b
      \<and> va \<noteq> [] \<and> va \<noteq> ''0'' \<and> vb \<noteq> [] \<and> vb \<noteq> ''0''
      \<and> formatEther L va = Some () \<and> formatEther L vb = Some ()
      \<and> solidityPack L (toLowerCase a) va = Some pa
      \<and> solidityPack L (toLowerCase b) vb = Some pb \<longrightarrow>
        merkleRoot (run L [Add a va, Add b vb] new_MerkleManager) =
          merkleRoot (run L [Add b vb, Add a va] new_MerkleManager)
        \<and> merkleRoot (run L [Add a va, Add b vb] new_MerkleManager) =
            Some (hashPair (keccak256 L) (keccak256 L pa) (keccak256 L pb)))
   \<and> (generateMerkleTree L s = (Inr (), s') \<and> generateMerkleTree L t = (Inr (), t')
        \<and> whitelistedUsers s = whitelistedUsers t \<longrightarrow>
          merkleRoot s' = merkleRoot t' \<and> merkleTree s' = merkleTree t')"
proof (intro conjI impI)
  assume asm: "isAddress L a \<and> isAddress L b \<and> toLowerCase a \<noteq> toLowerCase b
      \<and> va \<noteq> [] \<and> va \<noteq> ''0'' \<and> vb \<noteq> [] \<and> vb \<noteq> ''0''
      \<and> formatEther L va = Some () \<and> formatEther L vb = Some ()
      \<and> solidityPack L (toLowerCase a) va = Some pa
      \<and> solidityPack L (toLowerCase b) vb = Some pb"
  let ?H = "keccak256 L"
  from asm have ne: "toLowerCase b \<noteq> toLowerCase a" by auto
  have wl1: "whitelistedUsers (snd (addToWhitelist L a va new_MerkleManager))
      = [(toLowerCase a, va)]"
    using asm by (simp add: addToWhitelist_whitelist falsy_def new_MerkleManager_sel)
  have wl2: "whitelistedUsers (snd (addToWhitelist L b vb new_MerkleManager))
      = [(toLowerCase b, vb)]"
    using asm by (simp add: addToWhitelist_whitelist falsy_def new_MerkleManager_sel)
  have r1: "merkleRoot (snd (addToWhitelist L b vb (snd (addToWhitelist L a va new_MerkleManager))))
      = Some (getRoot (new_MerkleTree ?H [?H pa, ?H pb]))"
    using asm
      addToWhitelist_ok [of L b vb "snd (addToWhitelist L a va new_MerkleManager)" "[?H pa, ?H pb]"]
    by (simp add: wl1)
  have r2: "merkleRoot (snd (addToWhitelist L a va (snd (addToWhitelist L b vb new_MerkleManager))))
      = Some (getRoot (new_MerkleTree ?H [?H pb, ?H pa]))"
    using asm
      addToWhitelist_ok [of L a va "snd (addToWhitelist L b vb new_MerkleManager)" "[?H pb, ?H pa]"]
    by (simp add: wl2 ne)
  from r1 r2
  show "merkleRoot (run L [Add a va, Add b vb] new_MerkleManager) =
          merkleRoot (run L [Add b vb, Add a va] new_MerkleManager)"
    by (simp add: getRoot_two hashPair_commute [of ?H "?H pb" "?H pa"])
  from r1
  show "merkleRoot (run L [Add a va, Add b vb] new_MerkleManager) =
          Some (hashPair ?H (?H pa) (?H pb))"
    by (simp add: getRoot_two)
next
  assume "generateMerkleTree L s = (Inr (), s') \<and> generateMerkleTree L t = (Inr (), t')
        \<and> whitelistedUsers s = whitelistedUsers t"
  then show "merkleRoot s' = merkleRoot t'" and "merkleTree s' = merkleTree t'"
    using rebuild_function_of_entries [of L s s' t t'] by simp_all
qed

text \<open>
  Two records, inserted in both orders.
\<close>

theorem root_and_insertion_order_witness:
  "merkleRoot (run example_lib [Add addrA ''1000'', Add addrB ''2000''] new_MerkleManager) =
     merkleRoot (run example_lib [Add addrB ''2000'', Add addrA ''1000''] new_MerkleManager)
   \<and> merkleRoot (run example_lib [Add addrA ''1000'', Add addrB ''2000''] new_MerkleManager) =
       Some (hashPair (keccak256 example_lib)
         (keccak256 example_lib (replicate 20 170 @ replicate 30 0 @ [3, 232]))
         (keccak256 example_lib (replicate 20 187 @ replicate 30 0 @ [7, 208])))"
proof -
  let ?pA = "replicate 20 170 @ replicate 30 0 @ [3, 232] :: buffer"
  let ?pB = "replicate 20 187 @ replicate 30 0 @ [7, 208] :: buffer"
  have pre: "isAddress example_lib addrA \<and> isAddress example_lib addrB
      \<and> toLowerCase addrA \<noteq> toLowerCase addrB
      \<and> ''1000'' \<noteq> [] \<and> ''1000'' \<noteq> ''0'' \<and> ''2000'' \<noteq> [] \<and> ''2000'' \<noteq> ''0''
      \<and> formatEther example_lib ''1000'' = Some () \<and> formatEther example_lib ''2000'' = Some ()
      \<and> solidityPack example_lib (toLowerCase addrA) ''1000'' = Some ?pA
      \<and> solidityPack example_lib (toLowerCase addrB) ''2000'' = Some ?pB"
    by (simp add: example_eval example_pack)
  from root_and_insertion_order [of example_lib addrA addrB "''1000''" "''2000''" ?pA ?pB] pre
  show ?thesis by blast
qed

text \<open>
  Three records inserted in two orders: the whitelists hold the same set of records
  and the roots differ. (Only pairs are sorted, not the leaves: by
  \<open>three_leaf_roots_collision\<close> two such roots over 32-byte hashes are equal only
  if the hash function has a collision.)
\<close>

theorem root_order_counterexample:
  "merkleRoot (run example_lib [Add addrA ''1000'', Add addrB ''2000'', Add addrC ''500'']
       new_MerkleManager)
     \<noteq> merkleRoot (run example_lib [Add addrA ''1000'', Add addrC ''500'', Add addrB ''2000'']
          new_MerkleManager)
   \<and> set (whitelistedUsers (run example_lib
            [Add addrA ''1000'', Add addrB ''2000'', Add addrC ''500''] new_MerkleManager))
     = set (whitelistedUsers (run example_lib
            [Add addrA ''1000'', Add addrC ''500'', Add addrB ''2000''] new_MerkleManager))"
proof -
  let ?pA = "replicate 20 170 @ replicate 30 0 @ [3, 232] :: buffer"
  let ?pB = "replicate 20 187 @ replicate 30 0 @ [7, 208] :: buffer"
  let ?pC = "replicate 20 204 @ replicate 30 0 @ [1, 244] :: buffer"
  let ?s1 = "snd (addToWhitelist example_lib addrB ''2000''
                (snd (addToWhitelist example_lib addrA ''1000'' new_MerkleManager)))"
  let ?s2 = "snd (addToWhitelist example_lib addrC ''500''
                (snd (addToWhitelist example_lib addrA ''1000'' new_MerkleManager)))"
  have wl1: "whitelistedUsers ?s1 = [(addrA, ''1000''), (addrB, ''2000'')]"
    by (simp add: addToWhitelist_whitelist example_eval new_MerkleManager_sel)
  have wl2: "whitelistedUsers ?s2 = [(addrA, ''1000''), (addrC, ''500'')]"
    by (simp add: addToWhitelist_whitelist example_eval new_MerkleManager_sel)
  have r1: "merkleRoot (snd (addToWhitelist example_lib addrC ''500'' ?s1))
      = Some (getRoot (new_MerkleTree (\<lambda>b. b) [?pA, ?pB, ?pC]))"
    using addToWhitelist_ok [of example_lib addrC "''500''" ?s1 "[?pA, ?pB, ?pC]"]
    by (simp add: wl1 example_eval example_pack)
  have r2: "merkleRoot (snd (addToWhitelist example_lib addrB ''2000'' ?s2))
      = Some (getRoot (new_MerkleTree (\<lambda>b. b) [?pA, ?pC, ?pB]))"
    using addToWhitelist_ok [of example_lib addrB "''2000''" ?s2 "[?pA, ?pC, ?pB]"]
    by (simp add: wl2 example_eval example_pack)
  have g1: "getRoot (new_MerkleTree (\<lambda>b. b) [?pA, ?pB, ?pC]) = ?pA @ ?pB @ ?pC"
    by (simp add: getRoot_def new_MerkleTree_def createHashes.simps hashPair_def
          replicate_numeral)
  have g2: "getRoot (new_MerkleTree (\<lambda>b. b) [?pA, ?pC, ?pB]) = ?pA @ ?pC @ ?pB"
    by (simp add: getRoot_def new_MerkleTree_def createHashes.simps hashPair_def
          replicate_numeral)
  have ne: "?pA @ ?pB @ ?pC \<noteq> ?pA @ ?pC @ ?pB"
    by (simp add: replicate_numeral)
  have w1: "whitelistedUsers (snd (addToWhitelist example_lib addrC ''500'' ?s1))
      = [(addrA, ''1000''), (addrB, ''2000''), (addrC, ''500'')]"
    by (simp add: addToWhitelist_whitelist example_eval new_MerkleManager_sel)
  have w2: "whitelistedUsers (snd (addToWhitelist example_lib addrB ''2000'' ?s2))
      = [(addrA, ''1000''), (addrC, ''500''), (addrB, ''2000'')]"
    by (simp add: addToWhitelist_whitelist example_eval new_MerkleManager_sel)
  from ne show ?thesis
    by (simp add: r1 r2 g1 g2 w1 w2 insert_commute)
qed

subsection \<open>C2: leaf and node hashes\<close>

text \<open>
  Claim C2, amended. Where the packed encoding is the one the spec describes (for a
  hexadecimal address and a decimal amount), a successful rebuild of a non-empty
  whitelist leaves a tree with one leaf per record, in order: the leaf of a record is
  the hash of its packed address and amount, which for a hexadecimal address and a
  decimal amount are the 20 bytes of the address followed by the 32 big-endian bytes
  of the amount; every node with two children is the hash of the two children, the
  lexicographically smaller first; and for every member with a non-empty amount
  \<^verbatim>\<open>getMerkleProof\<close> returns, with the leaf of the tree at the member's position.
  In every state, stale ones included, \<^verbatim>\<open>getMerkleProof\<close> returns for a member whose
  record can be packed, when a tree and a root exist, and its leaf is the hash of the
  packed key and stored amount: the leaf that a rebuild of the current whitelist
  computes at the member's position.
\<close>

theorem leaf_and_node_hashes:
  "(packs_as_specified L \<and> generateMerkleTree L s = (Inr (), s')
      \<and> whitelistedUsers s \<noteq> [] \<longrightarrow>
      (\<exists>t. merkleTree s' = Some t \<and> whitelistedUsers s' = whitelistedUsers s
        \<and> length (leaves t) = length (whitelistedUsers s) \<and> hd (layers t) = leaves t
        \<and> (\<forall>i < length (whitelistedUsers s). \<exists>p.
              solidityPack L (fst (whitelistedUsers s ! i)) (snd (whitelistedUsers s ! i))
                = Some p
            \<and> leaves t ! i = keccak256 L p
            \<and> (\<forall>n. is_hex_address (fst (whitelistedUsers s ! i))
                    \<and> parse_decimal (snd (whitelistedUsers s ! i)) = Some n \<longrightarrow>
                  p = hex_bytes (drop 2 (fst (whitelistedUsers s ! i))) @ uint_bytes 32 n
                  \<and> length (hex_bytes (drop 2 (fst (whitelistedUsers s ! i)))) = 20
                  \<and> length (uint_bytes 32 n) = 32 \<and> be_value (uint_bytes 32 n) = n))
        \<and> (\<forall>k j. Suc k < length (layers t) \<longrightarrow> 2 * j + 1 < length (layers t ! k) \<longrightarrow>
              layers t ! Suc k ! j =
                keccak256 L
                  (if ord_class.lexordp (layers t ! k ! (2 * j + 1)) (layers t ! k ! (2 * j))
                   then layers t ! k ! (2 * j + 1) @ layers t ! k ! (2 * j)
                   else layers t ! k ! (2 * j) @ layers t ! k ! (2 * j + 1)))
        \<and> (\<forall>u v. isAddress L u
                \<and> Map_get (toLowerCase u) (whitelistedUsers s) = Some v \<and> v \<noteq> [] \<longrightarrow>
              (\<exists>r. getMerkleProof L u s' = Inr r
                 \<and> (\<exists>i < length (whitelistedUsers s).
                       whitelistedUsers s ! i = (toLowerCase u, v)
                     \<and> prf_leaf r = leaves t ! i)))))
   \<and> (isAddress L u0 \<and> Map_get (toLowerCase u0) (whitelistedUsers s0) = Some v0
        \<and> v0 \<noteq> [] \<and> merkleTree s0 = Some t0 \<and> merkleRoot s0 = Some root0
        \<and> solidityPack L (toLowerCase u0) v0 = Some p0 \<longrightarrow>
        (\<exists>r. getMerkleProof L u0 s0 = Inr r \<and> prf_leaf r = keccak256 L p0)
        \<and> (\<exists>i < length (whitelistedUsers s0).
              whitelistedUsers s0 ! i = (toLowerCase u0, v0)
            \<and> (\<forall>lvs. leavesOf L (whitelistedUsers s0) = Some lvs \<longrightarrow>
                  lvs ! i = keccak256 L p0)))"
proof (intro conjI impI)
  assume asm: "packs_as_specified L \<and> generateMerkleTree L s = (Inr (), s')
      \<and> whitelistedUsers s \<noteq> []"
  let ?wl = "whitelistedUsers s"
  let ?H = "keccak256 L"
  from asm obtain lvs where lvs: "leavesOf L ?wl = Some lvs"
    and s': "s' = s\<lparr>merkleTree := Some (new_MerkleTree ?H lvs),
                       merkleRoot := Some (getRoot (new_MerkleTree ?H lvs))\<rparr>"
    by (auto simp: generateMerkleTree_def Let_def split: option.splits)
  let ?t = "new_MerkleTree ?H lvs"
  from leavesOf_nth [OF lvs] have len: "length lvs = length ?wl"
    and leaf: "\<And>i. i < length ?wl \<Longrightarrow>
        \<exists>p. solidityPack L (fst (?wl ! i)) (snd (?wl ! i)) = Some p \<and> lvs ! i = ?H p"
    by auto
  have leaves_ok: "\<exists>p. solidityPack L (fst (?wl ! i)) (snd (?wl ! i)) = Some p
          \<and> leaves ?t ! i = ?H p
          \<and> (\<forall>n. is_hex_address (fst (?wl ! i)) \<and> parse_decimal (snd (?wl ! i)) = Some n \<longrightarrow>
                p = hex_bytes (drop 2 (fst (?wl ! i))) @ uint_bytes 32 n
                \<and> length (hex_bytes (drop 2 (fst (?wl ! i)))) = 20
                \<and> length (uint_bytes 32 n) = 32 \<and> be_value (uint_bytes 32 n) = n)"
    if "i < length ?wl" for i
  proof -
    from leaf [OF that] obtain p where p: "solidityPack L (fst (?wl ! i)) (snd (?wl ! i)) = Some p"
      and l: "lvs ! i = ?H p"
      by auto
    have "p = hex_bytes (drop 2 (fst (?wl ! i))) @ uint_bytes 32 n
          \<and> length (hex_bytes (drop 2 (fst (?wl ! i)))) = 20
          \<and> length (uint_bytes 32 n) = 32 \<and> be_value (uint_bytes 32 n) = n"
      if hex: "is_hex_address (fst (?wl ! i))" and dec: "parse_decimal (snd (?wl ! i)) = Some n"
      for n
    proof -
      from asm hex dec p have "pack_address_uint256 (fst (?wl ! i)) (snd (?wl ! i)) = Some p"
        by (simp add: packs_as_specified_def)
      from pack_address_uint256_layout [OF this] dec show ?thesis by auto
    qed
    with p l show ?thesis
      by (auto simp: new_MerkleTree_sel)
  qed
  have nodes_ok: "layers ?t ! Suc k ! j =
        ?H (if ord_class.lexordp (layers ?t ! k ! (2 * j + 1)) (layers ?t ! k ! (2 * j))
            then layers ?t ! k ! (2 * j + 1) @ layers ?t ! k ! (2 * j)
            else layers ?t ! k ! (2 * j) @ layers ?t ! k ! (2 * j + 1))"
    if "Suc k < length (layers ?t)" and "2 * j + 1 < length (layers ?t ! k)" for k j
    using that
    by (simp add: new_MerkleTree_sel createHashes_Suc nextLayer_pair hashPair_sorted)
  have member_ok: "\<exists>r. getMerkleProof L u s' = Inr r
        \<and> (\<exists>i < length ?wl. ?wl ! i = (toLowerCase u, v) \<and> prf_leaf r = leaves ?t ! i)"
    if u: "isAddress L u" and v: "Map_get (toLowerCase u) ?wl = Some v" and nonempty: "v \<noteq> []"
    for u v
  proof -
    from v have "map_of ?wl (toLowerCase u) = Some v" by (simp add: Map_get_def)
    from map_of_nth [OF this] obtain i where i: "i < length ?wl"
      and at: "?wl ! i = (toLowerCase u, v)"
      by blast
    from leaf [OF i] at obtain p where p: "solidityPack L (toLowerCase u) v = Some p"
      and l: "lvs ! i = ?H p"
      by auto
    from u v nonempty p have "getMerkleProof L u s' =
        Inr \<lparr>prf_user = u, prf_amount = v, prf_proof = getProof ?t (?H p),
             prf_merkleRoot = Some (getRoot ?t), prf_leaf = ?H p,
             prf_isValid = verify ?H (getProof ?t (?H p)) (?H p) (getRoot ?t)\<rparr>"
      by (simp add: getMerkleProof_def falsy_def Let_def s')
    with i at l show ?thesis
      by (auto simp: new_MerkleTree_sel)
  qed
  have "merkleTree s' = Some ?t" and "whitelistedUsers s' = ?wl" by (simp_all add: s')
  moreover have "length (leaves ?t) = length ?wl" by (simp add: new_MerkleTree_sel len)
  moreover have "hd (layers ?t) = leaves ?t"
    by (simp add: new_MerkleTree_sel createHashes_hd)
  ultimately show "\<exists>t. merkleTree s' = Some t \<and> whitelistedUsers s' = whitelistedUsers s
        \<and> length (leaves t) = length (whitelistedUsers s) \<and> hd (layers t) = leaves t
        \<and> (\<forall>i < length (whitelistedUsers s). \<exists>p.
              solidityPack L (fst (whitelistedUsers s ! i)) (snd (whitelistedUsers s ! i))
                = Some p
            \<and> leaves t ! i = keccak256 L p
            \<and> (\<forall>n. is_hex_address (fst (whitelistedUsers s ! i))
                    \<and> parse_decimal (snd (whitelistedUsers s ! i)) = Some n \<longrightarrow>
                  p = hex_bytes (drop 2 (fst (whitelistedUsers s ! i))) @ uint_bytes 32 n
                  \<and> length (hex_bytes (drop 2 (fst (whitelistedUsers s ! i)))) = 20
                  \<and> length (uint_bytes 32 n) = 32 \<and> be_value (uint_bytes 32 n) = n))
        \<and> (\<forall>k j. Suc k < length (layers t) \<longrightarrow> 2 * j + 1 < length (layers t ! k) \<longrightarrow>
              layers t ! Suc k ! j =
                keccak256 L
                  (if ord_class.lexordp (layers t ! k ! (2 * j + 1)) (layers t ! k ! (2 * j))
                   then layers t ! k ! (2 * j + 1) @ layers t ! k ! (2 * j)
                   else layers t ! k ! (2 * j) @ layers t ! k ! (2 * j + 1)))
        \<and> (\<forall>u v. isAddress L u
                \<and> Map_get (toLowerCase u) (whitelistedUsers s) = Some v \<and> v \<noteq> [] \<longrightarrow>
              (\<exists>r. getMerkleProof L u s' = Inr r
                 \<and> (\<exists>i < length (whitelistedUsers s).
                       whitelistedUsers s ! i = (toLowerCase u, v)
                     \<and> prf_leaf r = leaves t ! i)))"
    using leaves_ok nodes_ok member_ok by (intro exI [of _ ?t] conjI allI impI) blast+
next
  assume asm: "isAddress L u0 \<and> Map_get (toLowerCase u0) (whitelistedUsers s0) = Some v0
        \<and> v0 \<noteq> [] \<and> merkleTree s0 = Some t0 \<and> merkleRoot s0 = Some root0
        \<and> solidityPack L (toLowerCase u0) v0 = Some p0"
  then show "\<exists>r. getMerkleProof L u0 s0 = Inr r \<and> prf_leaf r = keccak256 L p0"
    by (simp add: getMerkleProof_def falsy_def Let_def)
  from asm have "map_of (whitelistedUsers s0) (toLowerCase u0) = Some v0"
    by (simp add: Map_get_def)
  from map_of_nth [OF this] obtain i where i: "i < length (whitelistedUsers s0)"
    and at: "whitelistedUsers s0 ! i = (toLowerCase u0, v0)"
    by blast
  have "lvs ! i = keccak256 L p0" if "leavesOf L (whitelistedUsers s0) = Some lvs" for lvs
    using leavesOf_nth [OF that] i at asm by auto
  with i at
  show "\<exists>i < length (whitelistedUsers s0).
          whitelistedUsers s0 ! i = (toLowerCase u0, v0)
        \<and> (\<forall>lvs. leavesOf L (whitelistedUsers s0) = Some lvs \<longrightarrow> lvs ! i = keccak256 L p0)"
    by blast
qed

text \<open>
  A whitelist of two records: the first leaf, the node above the two leaves, and the
  leaf returned for the first member.
\<close>

theorem leaf_and_node_hashes_witness:
  "solidityPack example_lib = pack_address_uint256
   \<and> whitelistedUsers
        (new_MerkleManager\<lparr>whitelistedUsers := [(addrA, ''1000''), (addrB, ''2000'')]\<rparr>) \<noteq> []
   \<and> (\<exists>t. merkleTree (snd (generateMerkleTree example_lib
          (new_MerkleManager\<lparr>whitelistedUsers := [(addrA, ''1000''), (addrB, ''2000'')]\<rparr>)))
          = Some t
        \<and> leaves t ! 0 = hex_bytes (drop 2 addrA) @ uint_bytes 32 1000
        \<and> layers t ! 1 ! 0 = leaves t ! 0 @ leaves t ! 1
        \<and> (\<exists>r. getMerkleProof example_lib addrA_upper
                 (snd (generateMerkleTree example_lib
                    (new_MerkleManager\<lparr>whitelistedUsers :=
                       [(addrA, ''1000''), (addrB, ''2000'')]\<rparr>))) = Inr r
               \<and> prf_leaf r = leaves t ! 0))"
proof -
  let ?pA = "replicate 20 170 @ replicate 30 0 @ [3, 232] :: buffer"
  let ?pB = "replicate 20 187 @ replicate 30 0 @ [7, 208] :: buffer"
  let ?s = "new_MerkleManager\<lparr>whitelistedUsers := [(addrA, ''1000''), (addrB, ''2000'')]\<rparr>"
  let ?t = "new_MerkleTree (\<lambda>b. b) [?pA, ?pB]"
  let ?s' = "?s\<lparr>merkleTree := Some ?t, merkleRoot := Some (getRoot ?t)\<rparr>"
  have pack: "solidityPack example_lib = pack_address_uint256"
    by (simp add: example_eval)
  then have spec: "packs_as_specified example_lib"
    by (simp add: packs_as_specified_def)
  have gen: "generateMerkleTree example_lib ?s = (Inr (), ?s')"
    using generateMerkleTree_ok [of ?s example_lib "[?pA, ?pB]"]
    by (simp add: example_eval example_pack)
  have ne: "whitelistedUsers ?s \<noteq> []" by simp
  have hyp: "packs_as_specified example_lib
      \<and> generateMerkleTree example_lib ?s = (Inr (), ?s') \<and> whitelistedUsers ?s \<noteq> []"
    using spec gen ne by (intro conjI)
  from leaf_and_node_hashes [of example_lib ?s ?s', THEN conjunct1, THEN mp, OF hyp]
  obtain t where big: "merkleTree ?s' = Some t \<and> whitelistedUsers ?s' = whitelistedUsers ?s
        \<and> length (leaves t) = length (whitelistedUsers ?s) \<and> hd (layers t) = leaves t
        \<and> (\<forall>i < length (whitelistedUsers ?s). \<exists>p.
              solidityPack example_lib (fst (whitelistedUsers ?s ! i))
                (snd (whitelistedUsers ?s ! i)) = Some p
            \<and> leaves t ! i = keccak256 example_lib p
            \<and> (\<forall>n. is_hex_address (fst (whitelistedUsers ?s ! i))
                    \<and> parse_decimal (snd (whitelistedUsers ?s ! i)) = Some n \<longrightarrow>
                  p = hex_bytes (drop 2 (fst (whitelistedUsers ?s ! i))) @ uint_bytes 32 n
                  \<and> length (hex_bytes (drop 2 (fst (whitelistedUsers ?s ! i)))) = 20
                  \<and> length (uint_bytes 32 n) = 32 \<and> be_value (uint_bytes 32 n) = n))
        \<and> (\<forall>k j. Suc k < length (layers t) \<longrightarrow> 2 * j + 1 < length (layers t ! k) \<longrightarrow>
              layers t ! Suc k ! j =
                keccak256 example_lib
                  (if ord_class.lexordp (layers t ! k ! (2 * j + 1)) (layers t ! k ! (2 * j))
                   then layers t ! k ! (2 * j + 1) @ layers t ! k ! (2 * j)
                   else layers t ! k ! (2 * j) @ layers t ! k ! (2 * j + 1)))
        \<and> (\<forall>u v. isAddress example_lib u
                \<and> Map_get (toLowerCase u) (whitelistedUsers ?s) = Some v \<and> v \<noteq> [] \<longrightarrow>
              (\<exists>r. getMerkleProof example_lib u ?s' = Inr r
                 \<and> (\<exists>i < length (whitelistedUsers ?s).
                       whitelistedUsers ?s ! i = (toLowerCase u, v)
                     \<and> prf_leaf r = leaves t ! i)))"
    ..
  note t = big [THEN conjunct1]
  note leaf = big [THEN conjunct2, THEN conjunct2, THEN conjunct2, THEN conjunct2,
      THEN conjunct1, rule_format]
  note node = big [THEN conjunct2, THEN conjunct2, THEN conjunct2, THEN conjunct2,
      THEN conjunct2, THEN conjunct1, rule_format]
  note member = big [THEN conjunct2, THEN conjunct2, THEN conjunct2, THEN conjunct2,
      THEN conjunct2, THEN conjunct2, rule_format]
  from t have t_eq: "t = ?t" by simp
  from leaf [of 0] have l0: "leaves t ! 0 = hex_bytes (drop 2 addrA) @ uint_bytes 32 1000"
    by (auto simp: example_eval)
  have lay: "layers t = [[?pA, ?pB], [hashPair (\<lambda>b. b) ?pA ?pB]]"
    by (simp add: t_eq new_MerkleTree_sel createHashes_two)
  have lv: "leaves t = [?pA, ?pB]"
    by (simp add: t_eq new_MerkleTree_sel)
  have "\<not> ord_class.lexordp ?pB ?pA"
    by (simp add: replicate_numeral)
  with node [of 0 0] have n0: "layers t ! 1 ! 0 = leaves t ! 0 @ leaves t ! 1"
    by (simp add: lay lv example_eval)
  have "isAddress example_lib addrA_upper
      \<and> Map_get (toLowerCase addrA_upper) (whitelistedUsers ?s) = Some ''1000''
      \<and> ''1000'' \<noteq> []"
    by (simp add: example_eval Map_get_def)
  from member [OF this]
  obtain r i where r: "getMerkleProof example_lib addrA_upper ?s' = Inr r"
    and i: "i < length (whitelistedUsers ?s)"
    and at: "whitelistedUsers ?s ! i = (addrA, ''1000'')" and li: "prf_leaf r = leaves t ! i"
    by (auto simp: example_eval)
  from i at have "i = 0"
    by (cases i) (auto simp: example_eval)
  with r li have "\<exists>r. getMerkleProof example_lib addrA_upper ?s' = Inr r
      \<and> prf_leaf r = leaves t ! 0"
    by auto
  with pack ne t l0 n0 gen show ?thesis
    by (intro conjI exI [of _ t]) simp_all
qed

text \<open>
  After a batch whose rebuild throws, the cached tree is the one of the earlier
  whitelist: the leaf returned for a member written by the batch is none of its
  leaves.
\<close>

theorem stale_leaf_counterexample:
  "merkleTree (run example_lib [Add addrC ''7'', BatchAdd [(addrA, ''5''), (addrB, ''abc'')]]
       new_MerkleManager)
     = Some \<lparr>leaves = [replicate 20 204 @ replicate 31 0 @ [7]],
             layers = [[replicate 20 204 @ replicate 31 0 @ [7]]]\<rparr>
   \<and> Map_get addrA (whitelistedUsers
        (run example_lib [Add addrC ''7'', BatchAdd [(addrA, ''5''), (addrB, ''abc'')]]
           new_MerkleManager)) = Some ''5''
   \<and> getMerkleProof example_lib addrA
        (run example_lib [Add addrC ''7'', BatchAdd [(addrA, ''5''), (addrB, ''abc'')]]
           new_MerkleManager)
       = Inr \<lparr>prf_user = addrA, prf_amount = ''5'', prf_proof = [],
              prf_merkleRoot = Some (replicate 20 204 @ replicate 31 0 @ [7]),
              prf_leaf = replicate 20 170 @ replicate 31 0 @ [5], prf_isValid = False\<rparr>
   \<and> replicate 20 170 @ replicate 31 0 @ [5]
       \<notin> set [replicate 20 204 @ replicate 31 0 @ [7] :: buffer]"
proof -
  let ?leafC = "replicate 20 204 @ replicate 31 0 @ [7] :: buffer"
  let ?leafA = "replicate 20 170 @ replicate 31 0 @ [5] :: buffer"
  let ?t = "new_MerkleTree (\<lambda>b. b) [?leafC]"
  have s1: "snd (addToWhitelist example_lib addrC ''7'' new_MerkleManager) =
      \<lparr>whitelistedUsers = [(addrC, ''7'')], merkleTree = Some ?t,
       merkleRoot = Some (getRoot ?t)\<rparr>"
    using addToWhitelist_ok [of example_lib addrC "''7''" new_MerkleManager "[?leafC]"]
    by (simp add: example_eval example_pack new_MerkleManager_def)
  have s2: "run example_lib [Add addrC ''7'', BatchAdd [(addrA, ''5''), (addrB, ''abc'')]]
      new_MerkleManager =
      \<lparr>whitelistedUsers = [(addrC, ''7''), (addrA, ''5''), (addrB, ''abc'')],
       merkleTree = Some ?t, merkleRoot = Some (getRoot ?t)\<rparr>"
    using batchAddToWhitelist_fail [of example_lib "[(addrA, ''5''), (addrB, ''abc'')]"
        "\<lparr>whitelistedUsers = [(addrC, ''7'')], merkleTree = Some ?t,
          merkleRoot = Some (getRoot ?t)\<rparr>"]
    by (simp add: s1 passes_validation_def example_eval example_pack)
  have tree: "?t = \<lparr>leaves = [?leafC], layers = [[?leafC]]\<rparr>"
    by (simp add: new_MerkleTree_def createHashes_one)
  have ne: "?leafA \<noteq> ?leafC"
    by (simp add: replicate_numeral)
  have root: "getRoot ?t = ?leafC"
    by (simp add: getRoot_def new_MerkleTree_def createHashes.simps)
  have cmp: "Buffer_compare ?leafA ?leafC = - 1"
    by (simp add: replicate_numeral)
  have "getMerkleProof example_lib addrA
      \<lparr>whitelistedUsers = [(addrC, ''7''), (addrA, ''5''), (addrB, ''abc'')],
       merkleTree = Some ?t, merkleRoot = Some (getRoot ?t)\<rparr>
      = Inr \<lparr>prf_user = addrA, prf_amount = ''5'', prf_proof = [],
             prf_merkleRoot = Some ?leafC, prf_leaf = ?leafA, prf_isValid = False\<rparr>"
    by (simp add: getMerkleProof_def Map_get_def example_eval example_pack root
          getProof_def new_MerkleTree_sel verify_def cmp Let_def)
  with ne show ?thesis
    by (simp only: s2) (simp add: tree [symmetric] Map_get_def example_eval)
qed

subsection \<open>C3: the self-check of a proof\<close>

text \<open>
  Claim C3, amended. For a member with a tree and a root, \<^verbatim>\<open>getMerkleProof\<close>
  verifies the proof it built against the current root and returns the proof with the
  outcome in \<^verbatim>\<open>isValid\<close>, whatever the outcome is; no error is raised for a failed
  check. In a state whose tree is up to date the outcome is always true.
\<close>

theorem proof_self_check:
  "(isAddress L u \<and> Map_get (toLowerCase u) (whitelistedUsers s) = Some v \<and> v \<noteq> []
      \<and> merkleTree s = Some t \<and> merkleRoot s = Some root
      \<and> solidityPack L (toLowerCase u) v = Some packed \<longrightarrow>
        getMerkleProof L u s =
          Inr \<lparr>prf_user = u, prf_amount = v,
               prf_proof = getProof t (keccak256 L packed),
               prf_merkleRoot = Some root,
               prf_leaf = keccak256 L packed,
               prf_isValid =
                 verify (keccak256 L) (getProof t (keccak256 L packed))
                   (keccak256 L packed) root\<rparr>)
   \<and> (rebuilt L s \<longrightarrow> (\<forall>r. getMerkleProof L u s = Inr r \<longrightarrow> prf_isValid r))"
  using proof_valid_when_rebuilt [of L s u]
  by (auto simp: getMerkleProof_def falsy_def Let_def)

text \<open>
  A member of an up-to-date state, queried with the upper-case spelling of its
  address.
\<close>

theorem proof_self_check_witness:
  "getMerkleProof example_lib addrA_upper
     (run example_lib [Add addrA ''1000''] new_MerkleManager) =
   Inr \<lparr>prf_user = addrA_upper, prf_amount = ''1000'', prf_proof = [],
        prf_merkleRoot = Some (replicate 20 170 @ replicate 30 0 @ [3, 232]),
        prf_leaf = replicate 20 170 @ replicate 30 0 @ [3, 232],
        prf_isValid = True\<rparr>
   \<and> rebuilt example_lib (run example_lib [Add addrA ''1000''] new_MerkleManager)"
proof -
  let ?s = "snd (addToWhitelist example_lib addrA ''1000'' new_MerkleManager)"
  let ?p = "replicate 20 170 @ replicate 30 0 @ [3, 232] :: buffer"
  let ?t = "new_MerkleTree (\<lambda>b. b) [?p]"
  have pre: "isAddress example_lib addrA_upper
      \<and> Map_get (toLowerCase addrA_upper) (whitelistedUsers ?s) = Some ''1000''
      \<and> ''1000'' \<noteq> [] \<and> merkleTree ?s = Some ?t \<and> merkleRoot ?s = Some ?p
      \<and> solidityPack example_lib (toLowerCase addrA_upper) ''1000'' = Some ?p"
    by (simp add: example_state Map_get_def example_eval example_pack)
  from proof_self_check [of example_lib addrA_upper ?s "''1000''" ?t ?p ?p] pre
  have ret: "getMerkleProof example_lib addrA_upper ?s =
      Inr \<lparr>prf_user = addrA_upper, prf_amount = ''1000'',
           prf_proof = getProof ?t (keccak256 example_lib ?p),
           prf_merkleRoot = Some ?p,
           prf_leaf = keccak256 example_lib ?p,
           prf_isValid = verify (keccak256 example_lib)
               (getProof ?t (keccak256 example_lib ?p)) (keccak256 example_lib ?p) ?p\<rparr>"
    and valid: "\<And>r. getMerkleProof example_lib addrA_upper ?s = Inr r \<Longrightarrow> prf_isValid r"
    using example_state_rebuilt by blast+
  from valid [OF ret] have "verify (keccak256 example_lib)
      (getProof ?t (keccak256 example_lib ?p)) (keccak256 example_lib ?p) ?p"
    by simp
  with ret example_state_rebuilt show ?thesis
    by (simp add: example_eval getProof_def new_MerkleTree_sel Buffer_compare_eq
          createHashes_one)
qed

text \<open>
  After a batch whose rebuild throws (the amount \<^verbatim>\<open>'abc'\<close> cannot be packed), the
  tree is that of the earlier whitelist: the proof of a new member is empty, fails the
  check, and is returned.
\<close>

theorem proof_self_check_counterexample:
  "getMerkleProof example_lib addrA
     (run example_lib [Add addrC ''7'', BatchAdd [(addrA, ''5''), (addrB, ''abc'')]]
        new_MerkleManager) =
   Inr \<lparr>prf_user = addrA, prf_amount = ''5'', prf_proof = [],
        prf_merkleRoot = Some (replicate 20 204 @ replicate 31 0 @ [7]),
        prf_leaf = replicate 20 170 @ replicate 31 0 @ [5],
        prf_isValid = False\<rparr>"
proof -
  let ?leafC = "replicate 20 204 @ replicate 31 0 @ [7] :: buffer"
  let ?leafA = "replicate 20 170 @ replicate 31 0 @ [5] :: buffer"
  let ?t = "new_MerkleTree (\<lambda>b. b) [?leafC]"
  have s1: "snd (addToWhitelist example_lib addrC ''7'' new_MerkleManager) =
      \<lparr>whitelistedUsers = [(addrC, ''7'')], merkleTree = Some ?t,
       merkleRoot = Some (getRoot ?t)\<rparr>"
    using addToWhitelist_ok [of example_lib addrC "''7''" new_MerkleManager "[?leafC]"]
    by (simp add: example_eval example_pack new_MerkleManager_def)
  have s2: "run example_lib [Add addrC ''7'', BatchAdd [(addrA, ''5''), (addrB, ''abc'')]]
      new_MerkleManager =
      \<lparr>whitelistedUsers = [(addrC, ''7''), (addrA, ''5''), (addrB, ''abc'')],
       merkleTree = Some ?t, merkleRoot = Some (getRoot ?t)\<rparr>"
    using batchAddToWhitelist_fail [of example_lib "[(addrA, ''5''), (addrB, ''abc'')]"
        "\<lparr>whitelistedUsers = [(addrC, ''7'')], merkleTree = Some ?t,
          merkleRoot = Some (getRoot ?t)\<rparr>"]
    by (simp add: s1 passes_validation_def example_eval example_pack)
  have root: "getRoot ?t = ?leafC"
    by (simp add: getRoot_def new_MerkleTree_def createHashes.simps)
  have cmp: "Buffer_compare ?leafA ?leafC = - 1"
    by (simp add: replicate_numeral)
  show ?thesis
    by (simp only: s2)
       (simp add: getMerkleProof_def Map_get_def example_eval example_pack root
          getProof_def new_MerkleTree_sel verify_def cmp Let_def)
qed

subsection \<open>C4: the amounts of the records present\<close>

text \<open>
  Claim C4, amended. After every sequence of \<^verbatim>\<open>addToWhitelist\<close>,
  \<^verbatim>\<open>removeFromWhitelist\<close> and \<^verbatim>\<open>batchAddToWhitelist\<close> calls on a new manager, every
  record present has an amount that passed the check of the source: it is not empty
  and is not the string \<^verbatim>\<open>'0'\<close>.
\<close>

theorem present_amounts_accepted:
  assumes "list_all (\<lambda>x. \<not> is_import x) xs"
  shows "list_all (\<lambda>e. snd e \<noteq> [] \<and> snd e \<noteq> ''0'')
           (whitelistedUsers (run L xs new_MerkleManager))"
proof -
  have "amounts_accepted new_MerkleManager"
    by (simp add: amounts_accepted_def new_MerkleManager_def)
  from amounts_accepted_run [OF this assms] show ?thesis
    by (simp add: amounts_accepted_def amount_accepted_def falsy_def)
qed

text \<open>
  An insertion, a batch with a rejected record, and a removal.
\<close>

theorem present_amounts_accepted_witness:
  "whitelistedUsers (run example_lib [Add addrA ''1000'', BatchAdd [(addrB, ''0''), (addrC, ''500'')],
       Remove addrA] new_MerkleManager) = [(addrC, ''500'')]
   \<and> list_all (\<lambda>e. snd e \<noteq> [] \<and> snd e \<noteq> ''0'')
        (whitelistedUsers (run example_lib [Add addrA ''1000'',
           BatchAdd [(addrB, ''0''), (addrC, ''500'')], Remove addrA] new_MerkleManager))"
proof -
  have "list_all (\<lambda>x. \<not> is_import x)
          [Add addrA ''1000'', BatchAdd [(addrB, ''0''), (addrC, ''500'')], Remove addrA]"
    by simp
  from present_amounts_accepted [OF this, of example_lib] show ?thesis
    by (simp add: addToWhitelist_whitelist removeFromWhitelist_whitelist
          batchAddToWhitelist_whitelist example_eval new_MerkleManager_def)
qed

text \<open>
  The amount \<^verbatim>\<open>'00'\<close> passes the check and is stored, and is not positive; an
  imported record keeps the amount \<^verbatim>\<open>'0'\<close>, which \<^verbatim>\<open>addToWhitelist\<close> rejects.
\<close>

theorem present_amounts_counterexample:
  "whitelistedUsers (run example_lib [Add addrA ''00''] new_MerkleManager) = [(addrA, ''00'')]
   \<and> \<not> positive_amount ''00''
   \<and> whitelistedUsers
        (run example_lib
           [Import \<lparr>users = Some [(addrA, ''0'')], data_merkleRoot = None, timestamp = []\<rparr>]
           new_MerkleManager) = [(addrA, ''0'')]
   \<and> \<not> positive_amount ''0''
   \<and> fst (addToWhitelist example_lib addrA ''0'' new_MerkleManager) = Inl InvalidAmount"
proof -
  have "fst (addToWhitelist example_lib addrA ''0'' new_MerkleManager) = Inl InvalidAmount"
    by (simp add: addToWhitelist_def example_eval)
  then show ?thesis
    by (simp add: addToWhitelist_whitelist importWhitelist_whitelist positive_amount_def
          example_eval new_MerkleManager_def)
qed

subsection \<open>C5: export followed by import\<close>

text \<open>
  Claim C5, amended. In a state whose tree and root are up to date, whose keys are
  distinct, lowercase, accepted by \<^verbatim>\<open>isAddress\<close> and not array indices, importing the
  exported snapshot leaves the state as it was: the root is identical and
  \<^verbatim>\<open>getMerkleProof\<close> returns the same for every address.
\<close>

theorem snapshot_round_trip:
  assumes "rebuilt L s"
    and "distinct (map fst (whitelistedUsers s))"
    and "list_all (\<lambda>e. isAddress L (fst e) \<and> toLowerCase (fst e) = fst e
                        \<and> \<not> is_array_index (fst e)) (whitelistedUsers s)"
  shows "importWhitelist L (exportWhitelist now s) s = (Inr (getStats s), s)
         \<and> merkleRoot (snd (importWhitelist L (exportWhitelist now s) s)) = merkleRoot s
         \<and> (\<forall>u. getMerkleProof L u (snd (importWhitelist L (exportWhitelist now s) s))
                  = getMerkleProof L u s)"
proof -
  let ?wl = "whitelistedUsers s"
  from assms(3) have plain: "list_all (\<lambda>e. \<not> is_array_index (fst e)) ?wl"
    and valid: "list_all (\<lambda>e. isAddress L (fst e) \<and> toLowerCase (fst e) = fst e) ?wl"
    by (simp_all add: list_all_iff)
  have "importLoop L (object_entries ?wl) [] = ?wl"
    using importLoop_append [OF assms(2) valid, of "[]"]
    by (simp add: object_entries_plain [OF plain])
  then have "s\<lparr>whitelistedUsers := importLoop L (object_entries ?wl) []\<rparr> = s"
    by simp
  with assms(1) have "importWhitelist L (exportWhitelist now s) s = (Inr (getStats s), s)"
    by (simp add: importWhitelist_def exportWhitelist_def rebuilt_def)
  then show ?thesis by simp
qed

text \<open>
  The state after one insertion.
\<close>

theorem snapshot_round_trip_witness:
  "importWhitelist example_lib
     (exportWhitelist ''2024-01-01T00:00:00.000Z''
        (run example_lib [Add addrA ''1000''] new_MerkleManager))
     (run example_lib [Add addrA ''1000''] new_MerkleManager) =
   (Inr (getStats (run example_lib [Add addrA ''1000''] new_MerkleManager)),
    run example_lib [Add addrA ''1000''] new_MerkleManager)
   \<and> whitelistedUsers (run example_lib [Add addrA ''1000''] new_MerkleManager)
       = [(addrA, ''1000'')]"
proof -
  let ?s = "snd (addToWhitelist example_lib addrA ''1000'' new_MerkleManager)"
  have wl: "whitelistedUsers ?s = [(addrA, ''1000'')]"
    by (simp add: example_state)
  have "importWhitelist example_lib (exportWhitelist ''2024-01-01T00:00:00.000Z'' ?s) ?s
          = (Inr (getStats ?s), ?s)"
    using snapshot_round_trip [OF example_state_rebuilt, of "''2024-01-01T00:00:00.000Z''"]
    by (simp add: wl example_eval example_not_index)
  with wl show ?thesis by simp
qed

text \<open>
  A new manager has the root \<^verbatim>\<open>null\<close>; after importing its own export the root is
  the zero root.
\<close>

theorem snapshot_round_trip_counterexample:
  "merkleRoot (snd (importWhitelist example_lib (exportWhitelist [] new_MerkleManager)
      new_MerkleManager)) = Some zero_root
   \<and> merkleRoot new_MerkleManager = None"
  by (simp add: importWhitelist_def exportWhitelist_def object_entries_def
        generateMerkleTree_def new_MerkleManager_def)

subsection \<open>C6: batch insertion\<close>

text \<open>
  Claim C6, amended. \<^verbatim>\<open>batchAddToWhitelist\<close> writes the records that pass validation,
  in order, and skips the others. When none passes, no rebuild happens and the state
  is unchanged; otherwise one rebuild runs on the state that holds all the writes.
  The result counts the records that passed and gives the size of the whitelist
  after the batch.
\<close>

theorem batch_add:
  "(filter (passes_validation L) us = [] \<longrightarrow>
      batchAddToWhitelist L us s =
        (Inr \<lparr>bat_added = 0, bat_total = length (whitelistedUsers s),
              bat_merkleRoot = merkleRoot s\<rparr>, s))
   \<and> (filter (passes_validation L) us \<noteq> [] \<longrightarrow>
        (case generateMerkleTree L
                (s\<lparr>whitelistedUsers :=
                     fold (\<lambda>u. Map_set (toLowerCase (fst u)) (snd u))
                       (filter (passes_validation L) us) (whitelistedUsers s)\<rparr>) of
           (Inl e, s2) \<Rightarrow> batchAddToWhitelist L us s = (Inl e, s2)
         | (Inr _, s2) \<Rightarrow>
             batchAddToWhitelist L us s =
               (Inr \<lparr>bat_added = length (filter (passes_validation L) us),
                     bat_total = length (whitelistedUsers s2),
                     bat_merkleRoot = merkleRoot s2\<rparr>, s2)))"
  by (auto simp: batchAddToWhitelist_def batchLoop_fold Let_def split: prod.splits sum.splits)

text \<open>
  A batch in which no record passes, and a batch in which one of three passes.
\<close>

theorem batch_add_witness:
  "filter (passes_validation example_lib) [(addrA, ''0''), (''0x12'', ''5'')] = []
   \<and> batchAddToWhitelist example_lib [(addrA, ''0''), (''0x12'', ''5'')] new_MerkleManager =
       (Inr \<lparr>bat_added = 0, bat_total = 0, bat_merkleRoot = None\<rparr>, new_MerkleManager)
   \<and> filter (passes_validation example_lib) [(addrA, ''0''), (addrB, ''5''), (''0x12'', ''5'')]
       = [(addrB, ''5'')]
   \<and> fst (batchAddToWhitelist example_lib [(addrA, ''0''), (addrB, ''5''), (''0x12'', ''5'')]
          new_MerkleManager) =
       Inr \<lparr>bat_added = 1, bat_total = 1,
            bat_merkleRoot = Some (replicate 20 187 @ replicate 31 0 @ [5])\<rparr>"
proof -
  have pack: "pack_address_uint256 addrB ''5'' = Some (replicate 20 187 @ replicate 31 0 @ [5])"
    by (simp add: pack_address_uint256_def example_eval)
       (simp add: addrB_def hex_val_def uint_bytes_numeral replicate_numeral)
  have gen: "generateMerkleTree example_lib
      (new_MerkleManager\<lparr>whitelistedUsers := [(addrB, ''5'')]\<rparr>) =
      (Inr (), new_MerkleManager\<lparr>whitelistedUsers := [(addrB, ''5'')],
         merkleTree := Some (new_MerkleTree (\<lambda>b. b) [replicate 20 187 @ replicate 31 0 @ [5]]),
         merkleRoot := Some (replicate 20 187 @ replicate 31 0 @ [5])\<rparr>)"
    by (simp add: generateMerkleTree_def pack example_eval new_MerkleTree_def getRoot_def
          createHashes.simps)
  show ?thesis
    using batch_add [of example_lib "[(addrA, ''0''), (''0x12'', ''5'')]" new_MerkleManager]
      batch_add [of example_lib "[(addrA, ''0''), (addrB, ''5''), (''0x12'', ''5'')]"
        new_MerkleManager]
    by (simp add: passes_validation_def example_eval gen new_MerkleManager_sel)
qed

text \<open>
  An empty batch on a new manager leaves the root \<^verbatim>\<open>null\<close>; one rebuild would have
  set the zero root.
\<close>

theorem batch_add_counterexample:
  "merkleRoot (snd (batchAddToWhitelist example_lib [] new_MerkleManager)) = None
   \<and> merkleRoot (snd (generateMerkleTree example_lib new_MerkleManager)) = Some zero_root"
  by (simp add: batchAddToWhitelist_def generateMerkleTree_def new_MerkleManager_def)

subsection \<open>C7: rejected insertions\<close>

text \<open>
  Claim C7, amended. \<^verbatim>\<open>addToWhitelist\<close> throws the invalid-address error exactly for
  the addresses \<^verbatim>\<open>isAddress\<close> rejects, and the invalid-amount error exactly for an
  accepted address with an empty amount or the amount \<^verbatim>\<open>'0'\<close>; in both cases the
  state is unchanged.
\<close>

theorem add_rejections:
  "(\<not> isAddress L a \<longrightarrow> addToWhitelist L a v s = (Inl InvalidAddressFormat, s))
   \<and> (isAddress L a \<and> (v = [] \<or> v = ''0'') \<longrightarrow>
        addToWhitelist L a v s = (Inl InvalidAmount, s))
   \<and> (fst (addToWhitelist L a v s) = Inl InvalidAddressFormat \<longrightarrow> \<not> isAddress L a)
   \<and> (fst (addToWhitelist L a v s) = Inl InvalidAmount \<longrightarrow>
        isAddress L a \<and> (v = [] \<or> v = ''0''))"
  by (cases rule: generateMerkleTree_cases
        [of L "s\<lparr>whitelistedUsers := Map_set (toLowerCase a) v (whitelistedUsers s)\<rparr>"])
     (auto simp: addToWhitelist_def Let_def falsy_def split: option.splits)

text \<open>
  A malformed address, and the amount \<^verbatim>\<open>'0'\<close>.
\<close>

theorem add_rejections_witness:
  "addToWhitelist example_lib ''0x12'' ''1000'' new_MerkleManager =
     (Inl InvalidAddressFormat, new_MerkleManager)
   \<and> addToWhitelist example_lib addrA ''0'' new_MerkleManager =
       (Inl InvalidAmount, new_MerkleManager)"
  using add_rejections [of example_lib "''0x12''" "''1000''" new_MerkleManager]
    add_rejections [of example_lib addrA "''0''" new_MerkleManager]
  by (simp add: example_eval)

text \<open>
  The amount \<^verbatim>\<open>'00'\<close> is zero and is stored without the invalid-amount error; the
  amount \<^verbatim>\<open>'abc'\<close> is stored before the formatting of the log message throws.
\<close>

theorem add_rejections_counterexample:
  "fst (addToWhitelist example_lib addrA ''00'' new_MerkleManager) \<noteq> Inl InvalidAmount
   \<and> parse_decimal ''00'' = Some 0
   \<and> whitelistedUsers (snd (addToWhitelist example_lib addrA ''00'' new_MerkleManager))
       = [(addrA, ''00'')]
   \<and> fst (addToWhitelist example_lib addrA ''abc'' new_MerkleManager) = Inl LibraryError
   \<and> whitelistedUsers (snd (addToWhitelist example_lib addrA ''abc'' new_MerkleManager))
       = [(addrA, ''abc'')]
   \<and> whitelistedUsers new_MerkleManager = []"
proof -
  have "fst (addToWhitelist example_lib addrA ''00'' new_MerkleManager) \<noteq> Inl InvalidAmount"
    by (rule addToWhitelist_not_InvalidAmount) (simp_all add: example_eval)
  moreover
  have "fst (addToWhitelist example_lib addrA ''abc'' new_MerkleManager) = Inl LibraryError"
    by (simp add: addToWhitelist_def example_eval)
  ultimately show ?thesis
    by (simp add: addToWhitelist_whitelist example_eval new_MerkleManager_sel)
qed

subsection \<open>C8: removing a non-member\<close>

text \<open>
  Claim C8, amended. For an address that \<^verbatim>\<open>isAddress\<close> accepts and that is not a
  member, \<^verbatim>\<open>removeFromWhitelist\<close> returns the object \<^verbatim>\<open>{user, removed: false}\<close>,
  which has no root property, and leaves the whole state (whitelist, tree, root)
  as it was: no rebuild happens.
\<close>

theorem remove_non_member:
  assumes "isAddress L a" and "\<not> Map_has (toLowerCase a) (whitelistedUsers s)"
  shows "removeFromWhitelist L a s =
           (Inr \<lparr>rem_user = a, rem_removed = False, rem_merkleRoot = None\<rparr>, s)"
  using assms by (simp add: removeFromWhitelist_def Map_delete_absent)

text \<open>
  Removing an address that was never inserted.
\<close>

theorem remove_non_member_witness:
  "removeFromWhitelist example_lib addrB
     (run example_lib [Add addrA ''1000''] new_MerkleManager) =
   (Inr \<lparr>rem_user = addrB, rem_removed = False, rem_merkleRoot = None\<rparr>,
    run example_lib [Add addrA ''1000''] new_MerkleManager)"
proof -
  have "whitelistedUsers (run example_lib [Add addrA ''1000''] new_MerkleManager)
          = [(addrA, ''1000'')]"
    by (simp add: addToWhitelist_whitelist example_eval new_MerkleManager_def)
  then have "\<not> Map_has (toLowerCase addrB)
      (whitelistedUsers (run example_lib [Add addrA ''1000''] new_MerkleManager))"
    by (simp add: Map_has_def example_eval)
  then show ?thesis
    by (intro remove_non_member) (simp_all add: example_eval)
qed

text \<open>
  The result for a non-member carries no root.
\<close>

theorem remove_non_member_counterexample:
  "rem_merkleRoot (projr (fst (removeFromWhitelist example_lib addrA new_MerkleManager)))
     \<noteq> Some (merkleRoot new_MerkleManager)"
  by (simp add: removeFromWhitelist_def Map_delete_def Map_has_def new_MerkleManager_def
        example_eval)

subsection \<open>C9: the root of an empty whitelist\<close>

text \<open>
  Claim C9, amended. The constructor leaves no tree and the root \<^verbatim>\<open>null\<close>; a rebuild
  on an empty whitelist leaves no tree and the zero root; after every sequence of
  operations, an empty whitelist has no tree and a root that is \<^verbatim>\<open>null\<close> or the zero
  root; removing the last member returns the zero root and leaves the empty
  whitelist, no tree and the zero root; and an import that accepts no record leaves
  the empty whitelist, no tree and the zero root.
\<close>

theorem empty_whitelist_root:
  "merkleTree new_MerkleManager = None \<and> merkleRoot new_MerkleManager = None
   \<and> (whitelistedUsers s = [] \<longrightarrow>
        generateMerkleTree L s =
          (Inr (), s\<lparr>merkleTree := None, merkleRoot := Some zero_root\<rparr>))
   \<and> (whitelistedUsers (run L xs new_MerkleManager) = [] \<longrightarrow>
        merkleTree (run L xs new_MerkleManager) = None
        \<and> (merkleRoot (run L xs new_MerkleManager) = None
             \<or> merkleRoot (run L xs new_MerkleManager) = Some zero_root))
   \<and> (isAddress L a \<and> Map_has (toLowerCase a) (whitelistedUsers s1)
        \<and> filter (\<lambda>e. fst e \<noteq> toLowerCase a) (whitelistedUsers s1) = [] \<longrightarrow>
        removeFromWhitelist L a s1 =
          (Inr \<lparr>rem_user = a, rem_removed = True, rem_merkleRoot = Some (Some zero_root)\<rparr>,
           s1\<lparr>whitelistedUsers := [], merkleTree := None, merkleRoot := Some zero_root\<rparr>))
   \<and> (users d = Some es \<and> importLoop L es [] = [] \<longrightarrow>
        importWhitelist L d s2 =
          (Inr \<lparr>totalUsers = 0, stats_merkleRoot = Some zero_root, hasTree = False\<rparr>,
           s2\<lparr>whitelistedUsers := [], merkleTree := None, merkleRoot := Some zero_root\<rparr>))"
proof -
  have "empty_unbuilt new_MerkleManager"
    by (simp add: empty_unbuilt_def new_MerkleManager_def)
  then have "empty_unbuilt (run L xs new_MerkleManager)"
    by (rule empty_unbuilt_run)
  then have first: "merkleTree new_MerkleManager = None \<and> merkleRoot new_MerkleManager = None
   \<and> (whitelistedUsers s = [] \<longrightarrow>
        generateMerkleTree L s =
          (Inr (), s\<lparr>merkleTree := None, merkleRoot := Some zero_root\<rparr>))
   \<and> (whitelistedUsers (run L xs new_MerkleManager) = [] \<longrightarrow>
        merkleTree (run L xs new_MerkleManager) = None
        \<and> (merkleRoot (run L xs new_MerkleManager) = None
             \<or> merkleRoot (run L xs new_MerkleManager) = Some zero_root))"
    by (simp add: empty_unbuilt_def new_MerkleManager_def generateMerkleTree_empty)
  have remove: "removeFromWhitelist L a s1 =
          (Inr \<lparr>rem_user = a, rem_removed = True, rem_merkleRoot = Some (Some zero_root)\<rparr>,
           s1\<lparr>whitelistedUsers := [], merkleTree := None, merkleRoot := Some zero_root\<rparr>)"
    if "isAddress L a \<and> Map_has (toLowerCase a) (whitelistedUsers s1)
        \<and> filter (\<lambda>e. fst e \<noteq> toLowerCase a) (whitelistedUsers s1) = []"
    using that generateMerkleTree_empty [of "s1\<lparr>whitelistedUsers := []\<rparr>" L]
    by (simp add: removeFromWhitelist_def Map_delete_def)
  have import: "importWhitelist L d s2 =
          (Inr \<lparr>totalUsers = 0, stats_merkleRoot = Some zero_root, hasTree = False\<rparr>,
           s2\<lparr>whitelistedUsers := [], merkleTree := None, merkleRoot := Some zero_root\<rparr>)"
    if "users d = Some es \<and> importLoop L es [] = []"
    using that generateMerkleTree_empty [of "s2\<lparr>whitelistedUsers := []\<rparr>" L]
    by (simp add: importWhitelist_def getStats_def)
  from first remove import show ?thesis by blast
qed

text \<open>
  One insertion followed by the removal of the same address: the removal returns the
  zero root, and the state it leaves has the empty whitelist, no tree and the zero
  root.
\<close>

theorem empty_whitelist_root_witness:
  "removeFromWhitelist example_lib addrA
     (run example_lib [Add addrA ''1000''] new_MerkleManager) =
     (Inr \<lparr>rem_user = addrA, rem_removed = True, rem_merkleRoot = Some (Some zero_root)\<rparr>,
      \<lparr>whitelistedUsers = [], merkleTree = None, merkleRoot = Some zero_root\<rparr>)
   \<and> whitelistedUsers (run example_lib [Add addrA ''1000'', Remove addrA] new_MerkleManager) = []
   \<and> merkleTree (run example_lib [Add addrA ''1000'', Remove addrA] new_MerkleManager) = None
   \<and> merkleRoot (run example_lib [Add addrA ''1000'', Remove addrA] new_MerkleManager)
       = Some zero_root"
proof -
  let ?s = "snd (addToWhitelist example_lib addrA ''1000'' new_MerkleManager)"
  have pre: "isAddress example_lib addrA \<and> Map_has (toLowerCase addrA) (whitelistedUsers ?s)
        \<and> filter (\<lambda>e. fst e \<noteq> toLowerCase addrA) (whitelistedUsers ?s) = []"
    by (simp add: example_state Map_has_def example_eval)
  with empty_whitelist_root [of _ example_lib _ addrA ?s]
  have "removeFromWhitelist example_lib addrA ?s =
      (Inr \<lparr>rem_user = addrA, rem_removed = True, rem_merkleRoot = Some (Some zero_root)\<rparr>,
       ?s\<lparr>whitelistedUsers := [], merkleTree := None, merkleRoot := Some zero_root\<rparr>)"
    by blast
  then show ?thesis
    by (simp add: example_state)
qed

text \<open>
  The root of the initial state is not the zero root.
\<close>

theorem initial_root_counterexample:
  "merkleRoot new_MerkleManager \<noteq> Some zero_root"
  by (simp add: new_MerkleManager_def)

subsection \<open>C10: the keys of the whitelist\<close>

text \<open>
  Claim C10. Every key of the whitelist map is the lowercase form of a string that
  \<^verbatim>\<open>isAddress\<close> accepts: this holds in the initial state, is preserved by
  \<^verbatim>\<open>addToWhitelist\<close>, \<^verbatim>\<open>removeFromWhitelist\<close>, \<^verbatim>\<open>batchAddToWhitelist\<close> and
  \<^verbatim>\<open>importWhitelist\<close>, whether they return or throw, and so holds after every
  sequence of them.
\<close>

theorem keys_canonical:
  "canonical_keys L new_MerkleManager
   \<and> (\<forall>x s. canonical_keys L s \<longrightarrow> canonical_keys L (step L x s))
   \<and> (\<forall>xs. canonical_keys L (run L xs new_MerkleManager))"
proof -
  have init: "canonical_keys L new_MerkleManager"
    by (simp add: canonical_keys_def new_MerkleManager_def)
  then show ?thesis
    by (simp add: canonical_keys_step canonical_keys_run)
qed

text \<open>
  An address inserted in upper case is stored under its lowercase form.
\<close>

theorem keys_canonical_witness:
  "whitelistedUsers (run example_lib [Add addrA_upper ''1000''] new_MerkleManager)
     = [(addrA, ''1000'')]
   \<and> canonical_keys example_lib (run example_lib [Add addrA_upper ''1000''] new_MerkleManager)"
proof -
  from keys_canonical [of example_lib]
  have "canonical_keys example_lib
          (run example_lib [Add addrA_upper ''1000''] new_MerkleManager)"
    by blast
  then show ?thesis
    by (simp add: addToWhitelist_whitelist example_eval new_MerkleManager_def)
qed

end
